theory Spec2Isabelle
  imports Main "HOL-Library.Word"
begin

section \<open>Data\<close>

text \<open>
  The sample is a small web server. Its \<open>do_POST\<close> handler creates a rendering project
  on the remote service, polls the project's processing results, downloads the output
  files of a completed project and answers the browser. The handler talks to the outside
  world all the time (HTTP calls, \<open>time.sleep\<close>, the local disk), so the model threads a
  \<open>world\<close> through every function and takes the behaviour of the outside world from an
  \<open>environment\<close>. A Python exception is a value \<open>Inl e\<close>; the world reached when it
  was raised is returned beside it.
\<close>

type_synonym byte = "8 word"

datatype error =
    KeyError string
  | AttributeError string
  | TransportError
  | DecodeError
  | OSError

text \<open>The JSON body that \<open>create_project\<close> posts.\<close>

record scenario =
  designId :: string
  sc_name :: string
  dpi :: int
  format :: string
  colorSpace :: string
  flipMode :: string
  allowAnonymous :: bool

record payload =
  ownerId :: string
  pl_name :: string
  description :: string
  scenario :: scenario

text \<open>
  Decoded JSON objects, restricted to the keys the program reads. \<open>None\<close> is an absent
  key: subscripting it raises \<open>KeyError\<close>.
\<close>

record post_body =
  stateId :: "string option"
  userId :: "string option"

record token_response =
  access_token :: "string option"

record project =
  id_field :: "string option"

record file_detail =
  url :: "string option"
  fd_name :: "string option"

record processing_results =
  status :: "string option"
  outputFileDetails :: "file_detail list option"
  statusDescription :: "string option"

text \<open>
  A streamed response (\<open>preload_content=False\<close>): the bytes of the remote body, and
  the number of \<open>read\<close> calls that succeed before one raises (\<open>None\<close>: none raises).
\<close>

record remote_file =
  content :: "byte list"
  read_fault :: "nat option"

text \<open>
  The response object \<open>r\<close> of a streamed GET while it is read: whether it still holds
  its pooled connection, and the part of the body not read yet.
\<close>

record stream =
  conn_held :: bool
  unread :: "byte list"

text \<open>The observable effects, in the order the handler performs them.\<close>

datatype event =
    TokenRequest
  | CreateProject payload
  | Sleep nat
  | StatusQuery string
  | StreamRequest string
  | OpenFile string
  | Read nat
  | Write string "byte list"
  | CloseFile string
  | ReleaseConn string
  | SendResponse nat
  | SendHeader string string
  | EndHeaders
  | WfileWrite string

text \<open>
  The world: the log of effects, newest first, and the local files. \<open>ReleaseConn\<close> is
  logged when a streamed response gives its connection back to the pool, whoever makes
  it do so: urllib3 inside \<open>r.read\<close>, or the call \<open>r.release_conn()\<close> of the sample. The
  connection of a preloaded response (token, project and status calls) is not tracked.
\<close>

record world =
  trace :: "event list"
  files :: "string \<rightharpoonup> byte list"

text \<open>
  What the outside world answers. An \<open>Inl\<close> reply is the exception the call raises
  (transport failure, undecodable body). The token endpoint is indexed by the number of
  token requests made before, the status endpoint by the project id and the number of
  status queries made before. \<open>open_fault\<close>, \<open>write_fault\<close> and \<open>close_fault\<close> are the
  local disk: whether \<open>open(filename, 'wb')\<close> raises, how many \<open>out.write\<close> calls of
  one download succeed before one raises, and whether closing the file raises. (Python
  buffers the file: a chunk smaller than the buffer is accepted by \<open>out.write\<close> and a
  disk error shows when the file is closed; a chunk of \<open>1024 * 1024\<close> bytes goes to
  the disk inside \<open>out.write\<close>. Which of the calls fails is the environment's choice.)
\<close>

record environment =
  token_reply :: "nat \<Rightarrow> error + token_response"
  create_reply :: "payload \<Rightarrow> error + project"
  status_reply :: "string \<Rightarrow> nat \<Rightarrow> error + processing_results"
  stream_reply :: "string \<Rightarrow> error + remote_file"
  open_fault :: "string \<Rightarrow> bool"
  write_fault :: "string \<Rightarrow> nat option"
  close_fault :: "string \<Rightarrow> bool"

text \<open>The local variables of the polling loop of \<open>do_POST\<close>.\<close>

record loop_state =
  isPending :: bool
  isSuccess :: bool
  failureDetails :: string
  counter :: nat

section \<open>Reading the log\<close>

definition emit :: "event \<Rightarrow> world \<Rightarrow> world" where
  "emit e w = w\<lparr>trace := e # trace w\<rparr>"

fun is_token :: "event \<Rightarrow> bool" where
  "is_token TokenRequest = True"
| "is_token e = False"

fun is_query :: "event \<Rightarrow> bool" where
  "is_query (StatusQuery p) = True"
| "is_query e = False"

fun is_sleep :: "event \<Rightarrow> bool" where
  "is_sleep (Sleep n) = True"
| "is_sleep e = False"

fun is_response :: "event \<Rightarrow> bool" where
  "is_response (SendResponse c) = True"
| "is_response (SendHeader k v) = True"
| "is_response EndHeaders = True"
| "is_response (WfileWrite b) = True"
| "is_response e = False"

definition token_requests :: "event list \<Rightarrow> nat" where
  "token_requests tr = length (filter is_token tr)"

definition queries :: "event list \<Rightarrow> nat" where
  "queries tr = length (filter is_query tr)"

definition sleeps :: "event list \<Rightarrow> nat" where
  "sleeps tr = length (filter is_sleep tr)"

definition responses :: "event list \<Rightarrow> event list" where
  "responses tr = filter is_response tr"


text \<open>
  On a log (newest first): the time slept since the latest status query or, when there
  is none, since the start.
\<close>

fun slept_since_query :: "event list \<Rightarrow> nat" where
  "slept_since_query [] = 0"
| "slept_since_query (StatusQuery p # tr) = 0"
| "slept_since_query (Sleep n # tr) = n + slept_since_query tr"
| "slept_since_query (e # tr) = slept_since_query tr"

text \<open>On a log: the time slept before the oldest status query, if there is a query.\<close>

fun wait_before_first_query :: "event list \<Rightarrow> nat option" where
  "wait_before_first_query [] = None"
| "wait_before_first_query (StatusQuery p # tr) =
     (case wait_before_first_query tr of
        None \<Rightarrow> Some (slept_since_query tr)
      | Some n \<Rightarrow> Some n)"
| "wait_before_first_query (e # tr) = wait_before_first_query tr"

text \<open>On a log: every status query comes after a wait of \<open>d\<close> since the query before it.\<close>

fun waits_before_queries :: "nat \<Rightarrow> event list \<Rightarrow> bool" where
  "waits_before_queries d [] = True"
| "waits_before_queries d (StatusQuery p # tr) =
     (slept_since_query tr = d \<and> waits_before_queries d tr)"
| "waits_before_queries d (e # tr) = waits_before_queries d tr"

text \<open>The bytes handed to \<open>out.write\<close>, call by call, and the streams released.\<close>

fun written_chunks :: "event list \<Rightarrow> byte list list" where
  "written_chunks [] = []"
| "written_chunks (Write f d # tr) = d # written_chunks tr"
| "written_chunks (e # tr) = written_chunks tr"

fun opened_files :: "event list \<Rightarrow> string list" where
  "opened_files [] = []"
| "opened_files (OpenFile f # tr) = f # opened_files tr"
| "opened_files (e # tr) = opened_files tr"

fun streams_opened :: "event list \<Rightarrow> string list" where
  "streams_opened [] = []"
| "streams_opened (StreamRequest u # tr) = u # streams_opened tr"
| "streams_opened (e # tr) = streams_opened tr"

fun streams_released :: "event list \<Rightarrow> string list" where
  "streams_released [] = []"
| "streams_released (ReleaseConn u # tr) = u # streams_released tr"
| "streams_released (e # tr) = streams_released tr"

text \<open>The status codes and the body text sent to the browser.\<close>

fun status_codes :: "event list \<Rightarrow> nat list" where
  "status_codes [] = []"
| "status_codes (SendResponse c # tr) = c # status_codes tr"
| "status_codes (e # tr) = status_codes tr"

fun response_bodies :: "event list \<Rightarrow> string list" where
  "response_bodies [] = []"
| "response_bodies (WfileWrite b # tr) = b # response_bodies tr"
| "response_bodies (e # tr) = response_bodies tr"

section \<open>The API calls\<close>

text \<open>
  \<open>get_access_token\<close>: one POST to the identity server, then
  \<open>json.loads(...)['access_token']\<close>.
\<close>

definition get_access_token :: "environment \<Rightarrow> world \<Rightarrow> (error + string) \<times> world" where
  "get_access_token env w =
     (case token_reply env (token_requests (trace w)) of
        Inl e \<Rightarrow> (Inl e, emit TokenRequest w)
      | Inr r \<Rightarrow>
          (case access_token r of
             None \<Rightarrow> (Inl (KeyError ''access_token''), emit TokenRequest w)
           | Some t \<Rightarrow> (Inr t, emit TokenRequest w)))"

text \<open>
  \<open>create_project\<close>: builds the payload, fetches a token for the header, posts, decodes
  the reply and returns the decoded object as it is.
\<close>

definition create_project ::
  "environment \<Rightarrow> string \<Rightarrow> string \<Rightarrow> string \<Rightarrow> string \<Rightarrow> int \<Rightarrow> world \<Rightarrow> (error + project) \<times> world"
where
  "create_project env state_id user_id fmt color_space resolution w =
     (let pl = \<lparr>ownerId = user_id,
                pl_name = ''PROJ-'' @ state_id,
                description = ''Project for state '' @ state_id,
                scenario = \<lparr>designId = state_id,
                             sc_name = ''resultfile_'' @ state_id,
                             dpi = resolution,
                             format = fmt,
                             colorSpace = color_space,
                             flipMode = ''None'',
                             allowAnonymous = False\<rparr>\<rparr>
      in case get_access_token env w of
           (Inl e, w1) \<Rightarrow> (Inl e, w1)
         | (Inr token, w1) \<Rightarrow>
             (case create_reply env pl of
                Inl e \<Rightarrow> (Inl e, emit (CreateProject pl) w1)
              | Inr result \<Rightarrow> (Inr result, emit (CreateProject pl) w1)))"

text \<open>\<open>check_project_results\<close>: a token, one GET of the processing results, decoded.\<close>

definition check_project_results ::
  "environment \<Rightarrow> string \<Rightarrow> world \<Rightarrow> (error + processing_results) \<times> world"
where
  "check_project_results env project_id w =
     (case get_access_token env w of
        (Inl e, w1) \<Rightarrow> (Inl e, w1)
      | (Inr token, w1) \<Rightarrow>
          (case status_reply env project_id (queries (trace w1)) of
             Inl e \<Rightarrow> (Inl e, emit (StatusQuery project_id) w1)
           | Inr result \<Rightarrow> (Inr result, emit (StatusQuery project_id) w1)))"

section \<open>Downloading a file\<close>

definition chunk_size :: nat where
  "chunk_size = 1024 * 1024"

text \<open>\<open>open(filename, 'wb')\<close> creates the file or truncates it.\<close>

definition open_wb :: "string \<Rightarrow> world \<Rightarrow> world" where
  "open_wb filename w = emit (OpenFile filename) (w\<lparr>files := (files w)(filename \<mapsto> [])\<rparr>)"

text \<open>\<open>out.write(data)\<close> appends to the open file.\<close>

definition write_file :: "string \<Rightarrow> byte list \<Rightarrow> world \<Rightarrow> world" where
  "write_file filename data w =
     emit (Write filename data)
       (w\<lparr>files := (files w)(filename \<mapsto>
              (case files w filename of None \<Rightarrow> data | Some old \<Rightarrow> old @ data))\<rparr>)"

text \<open>
  \<open>r.read(chunk_size)\<close> on the streamed response, as urllib3 serves it; \<open>i\<close> is the
  number of reads made before. A response that has given its connection back is closed
  and reads as empty. A read that raises makes urllib3 close the response and return
  the connection to the pool. Otherwise the read returns the next \<open>chunk_size\<close> bytes of
  the body, or what is left when that is less. The length of the body is taken to be
  announced in the response header, so the read that takes the last byte reaches the end
  of the body, and urllib3 returns the connection to the pool inside that call.
\<close>

definition r_read ::
  "nat option \<Rightarrow> string \<Rightarrow> nat \<Rightarrow> stream \<Rightarrow> world \<Rightarrow> (error + byte list \<times> stream) \<times> world"
where
  "r_read rfault u i r w =
     (if \<not> conn_held r then (Inr ([], r), emit (Read chunk_size) w)
      else if rfault = Some i then
        (Inl TransportError, emit (ReleaseConn u) (emit (Read chunk_size) w))
      else if drop chunk_size (unread r) = [] then
        (Inr (take chunk_size (unread r), \<lparr>conn_held = False, unread = []\<rparr>),
         emit (ReleaseConn u) (emit (Read chunk_size) w))
      else
        (Inr (take chunk_size (unread r), r\<lparr>unread := drop chunk_size (unread r)\<rparr>),
         emit (Read chunk_size) w))"

text \<open>
  \<open>r.release_conn()\<close>: returns the connection to the pool if the response still holds
  it, and does nothing otherwise.
\<close>

definition release_conn :: "string \<Rightarrow> stream \<Rightarrow> world \<Rightarrow> world" where
  "release_conn u r w = (if conn_held r then emit (ReleaseConn u) w else w)"

text \<open>
  The \<open>while True\<close> loop of \<open>download_file\<close>: \<open>rfault\<close> and \<open>wfault\<close> are the faults of the
  stream and of the disk, \<open>i\<close> counts the chunks copied so far, \<open>r\<close> is the response.
\<close>

function read_write_loop ::
  "nat option \<Rightarrow> nat option \<Rightarrow> string \<Rightarrow> string \<Rightarrow> nat \<Rightarrow> stream \<Rightarrow> world
     \<Rightarrow> (error + stream) \<times> world"
where
  "read_write_loop rfault wfault u filename i r w =
     (case r_read rfault u i r w of
        (Inl e, w1) \<Rightarrow> (Inl e, w1)
      | (Inr (data, r1), w1) \<Rightarrow>
          (if data = [] then (Inr r1, w1)
           else if wfault = Some i then (Inl OSError, w1)
           else read_write_loop rfault wfault u filename (i + 1) r1
                  (write_file filename data w1)))"
  by pat_completeness auto
termination
  by (relation "measure (\<lambda>(rfault, wfault, u, filename, i, r, w). length (unread r))")
     (auto simp: r_read_def chunk_size_def split: if_splits)

declare read_write_loop.simps [simp del]

text \<open>
  \<open>download_file\<close>: a token, the streamed GET, then the \<open>with open(...)\<close> block around
  the copy loop. The \<open>with\<close> statement closes the file on every way out of the block,
  and closing may raise; \<open>r.release_conn()\<close> stands after the block and runs only when
  the block ends normally.
\<close>

definition download_file :: "environment \<Rightarrow> string \<Rightarrow> string \<Rightarrow> world \<Rightarrow> (error + unit) \<times> world" where
  "download_file env u filename w =
     (case get_access_token env w of
        (Inl e, w1) \<Rightarrow> (Inl e, w1)
      | (Inr token, w1) \<Rightarrow>
          (case stream_reply env u of
             Inl e \<Rightarrow> (Inl e, emit (StreamRequest u) w1)
           | Inr reply \<Rightarrow>
               (if open_fault env filename then (Inl OSError, emit (StreamRequest u) w1)
                else
                  (case read_write_loop (read_fault reply) (write_fault env filename) u filename 0
                          \<lparr>conn_held = True, unread = content reply\<rparr>
                          (open_wb filename (emit (StreamRequest u) w1)) of
                     (Inl e, w3) \<Rightarrow>
                       (if close_fault env filename
                        then (Inl OSError, emit (CloseFile filename) w3)
                        else (Inl e, emit (CloseFile filename) w3))
                   | (Inr r, w3) \<Rightarrow>
                       (if close_fault env filename
                        then (Inl OSError, emit (CloseFile filename) w3)
                        else (Inr (), release_conn u r (emit (CloseFile filename) w3)))))))"

text \<open>
  The \<open>for result_info in file_details\<close> loop of \<open>do_POST\<close>: the argument
  \<open>result_info["url"]\<close> is evaluated before the file name
  \<open>f'{result_info["name"]}.pdf'\<close>.
\<close>

fun download_all :: "environment \<Rightarrow> file_detail list \<Rightarrow> world \<Rightarrow> (error + unit) \<times> world" where
  "download_all env [] w = (Inr (), w)"
| "download_all env (result_info # file_details) w =
     (case url result_info of
        None \<Rightarrow> (Inl (KeyError ''url''), w)
      | Some u \<Rightarrow>
          (case fd_name result_info of
             None \<Rightarrow> (Inl (KeyError ''name''), w)
           | Some n \<Rightarrow>
               (case download_file env u (n @ ''.pdf'') w of
                  (Inl e, w1) \<Rightarrow> (Inl e, w1)
                | (Inr x, w1) \<Rightarrow> download_all env file_details w1)))"

section \<open>The handler\<close>

text \<open>
  One pass through the body of \<open>while isPending and counter < 20\<close>. On the status
  \<open>Failed\<close> the handler evaluates \<open>project_results.statusDescription\<close>;
  \<open>project_results\<close> is the dictionary \<open>json.loads\<close> returned, which has no such
  attribute, so the expression raises \<open>AttributeError\<close>.
\<close>

definition iteration ::
  "environment \<Rightarrow> project \<Rightarrow> loop_state \<Rightarrow> world \<Rightarrow> (error + loop_state) \<times> world"
where
  "iteration env project s w =
     (case id_field project of
        None \<Rightarrow> (Inl (KeyError ''id''), emit (Sleep 3) w)
      | Some project_id \<Rightarrow>
          (case check_project_results env project_id (emit (Sleep 3) w) of
             (Inl e, w2) \<Rightarrow> (Inl e, w2)
           | (Inr project_results, w2) \<Rightarrow>
               (case status project_results of
                  None \<Rightarrow> (Inl (KeyError ''status''), w2)
                | Some project_status \<Rightarrow>
                    (if project_status = ''Completed'' then
                       (case outputFileDetails project_results of
                          None \<Rightarrow> (Inl (KeyError ''outputFileDetails''), w2)
                        | Some file_details \<Rightarrow>
                            (case download_all env file_details w2 of
                               (Inl e, w3) \<Rightarrow> (Inl e, w3)
                             | (Inr x, w3) \<Rightarrow>
                                 (Inr (s\<lparr>isPending := False, isSuccess := True,
                                          counter := counter s + 1\<rparr>), w3)))
                     else if project_status = ''Failed'' then
                       (Inl (AttributeError ''statusDescription''), w2)
                     else (Inr (s\<lparr>counter := counter s + 1\<rparr>), w2)))))"

function poll ::
  "environment \<Rightarrow> project \<Rightarrow> loop_state \<Rightarrow> world \<Rightarrow> (error + loop_state) \<times> world"
where
  "poll env project s w =
     (if isPending s \<and> counter s < 20 then
        (case iteration env project s w of
           (Inl e, w1) \<Rightarrow> (Inl e, w1)
         | (Inr s1, w1) \<Rightarrow> poll env project s1 w1)
      else (Inr s, w))"
  by pat_completeness auto
termination
  by (relation "measure (\<lambda>(env, project, s, w). 20 - counter s)")
     (auto simp: iteration_def split: option.splits sum.splits prod.splits if_splits)

declare poll.simps [simp del]

text \<open>The \<open>if isSuccess ... else ...\<close> at the end of \<open>do_POST\<close>.\<close>

definition respond :: "loop_state \<Rightarrow> world \<Rightarrow> world" where
  "respond s w =
     (if isSuccess s then
        emit (WfileWrite ''Successfully saved a file.'')
          (emit EndHeaders
            (emit (SendHeader ''Content-type'' ''text/html'')
              (emit (SendResponse 200) w)))
      else
        emit (WfileWrite (''Failed to render a file.'' @ failureDetails s))
          (emit EndHeaders
            (emit (SendHeader ''Content-type'' ''text/html'')
              (emit (SendResponse 200) w))))"

text \<open>
  \<open>do_POST\<close>: the two keys of the request body, \<open>create_project\<close> with the fixed
  output settings, the four loop variables as they are initialised, the loop, the
  answer. The request is taken as decoded (a body that is no JSON object is not
  modelled), and writing the answer is taken not to fail.
\<close>

definition initial_state :: loop_state where
  "initial_state = \<lparr>isPending = True, isSuccess = False, failureDetails = [], counter = 0\<rparr>"

definition do_POST :: "environment \<Rightarrow> post_body \<Rightarrow> world \<Rightarrow> (error + unit) \<times> world" where
  "do_POST env body w =
     (case stateId body of
        None \<Rightarrow> (Inl (KeyError ''stateId''), w)
      | Some state_id \<Rightarrow>
          (case userId body of
             None \<Rightarrow> (Inl (KeyError ''userId''), w)
           | Some user_id \<Rightarrow>
               (case create_project env state_id user_id ''Pdf'' ''Cmyk'' 300 w of
                  (Inl e, w1) \<Rightarrow> (Inl e, w1)
                | (Inr project, w1) \<Rightarrow>
                    (case poll env project initial_state w1 of
                       (Inl e, w2) \<Rightarrow> (Inl e, w2)
                     | (Inr s, w2) \<Rightarrow> (Inr (), respond s w2)))))"

section \<open>Reading a run\<close>

text \<open>
  The events of the copy loop, those of a download, and those that are neither a
  status query, a sleep nor a part of the answer to the browser.
\<close>

fun is_copy :: "event \<Rightarrow> bool" where
  "is_copy (Read n) = True"
| "is_copy (Write f d) = True"
| "is_copy (ReleaseConn u) = True"
| "is_copy e = False"

fun is_download :: "event \<Rightarrow> bool" where
  "is_download TokenRequest = True"
| "is_download (StreamRequest u) = True"
| "is_download (OpenFile f) = True"
| "is_download (Read n) = True"
| "is_download (Write f d) = True"
| "is_download (CloseFile f) = True"
| "is_download (ReleaseConn u) = True"
| "is_download e = False"

definition quiet :: "event \<Rightarrow> bool" where
  "quiet e = (\<not> is_query e \<and> \<not> is_sleep e \<and> \<not> is_response e)"

text \<open>The token endpoint grants a token: its reply decodes and has the key.\<close>

fun granted :: "error + token_response \<Rightarrow> bool" where
  "granted (Inl e) = False"
| "granted (Inr r) = (access_token r \<noteq> None)"

text \<open>
  A descriptor that downloads without a fault: both keys are there, the streamed GET
  answers, no read, open, write or close raises. \<open>local_name\<close> is the file it is saved to,
  \<open>remote_content\<close> the body the remote serves for it.
\<close>

definition local_name :: "file_detail \<Rightarrow> string" where
  "local_name d = (case fd_name d of None \<Rightarrow> [] | Some n \<Rightarrow> n @ ''.pdf'')"

definition remote_content :: "environment \<Rightarrow> file_detail \<Rightarrow> byte list" where
  "remote_content env d =
     (case url d of
        None \<Rightarrow> []
      | Some u \<Rightarrow> (case stream_reply env u of Inl e \<Rightarrow> [] | Inr r \<Rightarrow> content r))"

definition fault_free :: "environment \<Rightarrow> file_detail \<Rightarrow> bool" where
  "fault_free env d =
     (case url d of
        None \<Rightarrow> False
      | Some u \<Rightarrow>
          (case fd_name d of
             None \<Rightarrow> False
           | Some n \<Rightarrow>
               (case stream_reply env u of
                  Inl e \<Rightarrow> False
                | Inr r \<Rightarrow>
                    read_fault r = None \<and> \<not> open_fault env (n @ ''.pdf'')
                    \<and> write_fault env (n @ ''.pdf'') = None
                    \<and> \<not> close_fault env (n @ ''.pdf''))))"

text \<open>
  The disk after the bodies of the descriptors \<open>ds\<close> have been saved in order, each
  under its local name: a later descriptor overwrites an earlier one of the same name.
\<close>

definition saved :: "environment \<Rightarrow> (string \<rightharpoonup> byte list) \<Rightarrow> file_detail list \<Rightarrow> (string \<rightharpoonup> byte list)" where
  "saved env m ds = foldl (\<lambda>m d. m(local_name d \<mapsto> remote_content env d)) m ds"



text \<open>A status reply that leaves the loop running: it decodes, has a status, and the
  status is neither \<open>Completed\<close> nor \<open>Failed\<close>.\<close>

fun unfinished :: "error + processing_results \<Rightarrow> bool" where
  "unfinished (Inl e) = False"
| "unfinished (Inr r) =
     (status r \<noteq> None \<and> status r \<noteq> Some ''Completed'' \<and> status r \<noteq> Some ''Failed'')"

text \<open>A status reply with a terminal status: \<open>Completed\<close> or \<open>Failed\<close>.\<close>

fun finished :: "error + processing_results \<Rightarrow> bool" where
  "finished (Inl e) = False"
| "finished (Inr r) = (status r = Some ''Completed'' \<or> status r = Some ''Failed'')"

text \<open>The log after \<open>n\<close> iterations that each find the project unfinished.\<close>

fun idle_rounds :: "nat \<Rightarrow> string \<Rightarrow> event list \<Rightarrow> event list" where
  "idle_rounds 0 pid tr = tr"
| "idle_rounds (Suc n) pid tr = idle_rounds n pid (StatusQuery pid # TokenRequest # Sleep 3 # tr)"

section \<open>Scenarios\<close>

text \<open>
  Concrete runs: a service that grants every token, creates the project \<open>p1\<close> and
  answers the status queries from a script; a request; a world with an empty log and an
  empty disk.
\<close>

definition granting :: "nat \<Rightarrow> error + token_response" where
  "granting n = Inr \<lparr>access_token = Some ''token''\<rparr>"

definition results_with :: "string \<Rightarrow> processing_results" where
  "results_with st = \<lparr>status = Some st, outputFileDetails = None, statusDescription = None\<rparr>"

definition service :: "(nat \<Rightarrow> processing_results) \<Rightarrow> environment" where
  "service script =
     \<lparr>token_reply = granting,
      create_reply = (\<lambda>pl. Inr \<lparr>id_field = Some ''p1''\<rparr>),
      status_reply = (\<lambda>project_id k. Inr (script k)),
      stream_reply = (\<lambda>u. Inl TransportError),
      open_fault = (\<lambda>f. False),
      write_fault = (\<lambda>f. None),
      close_fault = (\<lambda>f. False)\<rparr>"

definition request :: post_body where
  "request = \<lparr>stateId = Some ''s1'', userId = Some ''user1''\<rparr>"

definition fresh :: world where
  "fresh = \<lparr>trace = [], files = Map.empty\<rparr>"

text \<open>
  Status scripts: completed at the first query with no output file; pending for ever;
  pending, then failed with the description \<open>render error\<close>; pending, in progress,
  then completed with the output files \<open>ds\<close>.
\<close>

definition scenario_A :: "nat \<Rightarrow> processing_results" where
  "scenario_A k = (results_with ''Completed'')\<lparr>outputFileDetails := Some []\<rparr>"

definition scenario_B :: "nat \<Rightarrow> processing_results" where
  "scenario_B k = results_with ''Pending''"

definition scenario_D :: "nat \<Rightarrow> processing_results" where
  "scenario_D k =
     (if k = 0 then results_with ''Pending''
      else (results_with ''Failed'')\<lparr>statusDescription := Some ''render error''\<rparr>)"

definition scenario_three :: "file_detail list \<Rightarrow> nat \<Rightarrow> processing_results" where
  "scenario_three ds k =
     (if k = 0 then results_with ''Pending''
      else if k = 1 then results_with ''InProgress''
      else (results_with ''Completed'')\<lparr>outputFileDetails := Some ds\<rparr>)"

text \<open>
  A service whose identity server rejects the client: the token reply decodes, but has
  no \<open>access_token\<close>.
\<close>

definition rejecting :: environment where
  "rejecting = (service scenario_B)\<lparr>token_reply := (\<lambda>n. Inr \<lparr>access_token = None\<rparr>)\<rparr>"

definition detail :: "string \<Rightarrow> string \<Rightarrow> file_detail" where
  "detail u n = \<lparr>url = Some u, fd_name = Some n\<rparr>"

text \<open>A service that serves two files: two bytes under \<open>u1\<close>, one byte under \<open>u2\<close>.\<close>

definition store :: "(nat \<Rightarrow> processing_results) \<Rightarrow> environment" where
  "store script =
     (service script)\<lparr>stream_reply :=
        (\<lambda>u. if u = ''u1'' then Inr \<lparr>content = [1, 2], read_fault = None\<rparr>
             else if u = ''u2'' then Inr \<lparr>content = [3], read_fault = None\<rparr>
             else Inl TransportError)\<rparr>"




section \<open>Lemmas\<close>

lemmas run_simps =
  do_POST_def service_def request_def fresh_def create_project_def get_access_token_def
  granting_def initial_state_def iteration_def check_project_results_def results_with_def
  respond_def poll.simps

lemmas download_simps =
  download_file_def get_access_token_def store_def service_def granting_def fresh_def
  open_wb_def write_file_def read_write_loop.simps r_read_def release_conn_def chunk_size_def
  detail_def

subsection \<open>The log\<close>

lemma trace_emit [simp]: "trace (emit e w) = e # trace w"
  by (simp add: emit_def)

lemma files_emit [simp]: "files (emit e w) = files w"
  by (simp add: emit_def)

lemma queries_Nil [simp]: "queries [] = 0"
  by (simp add: queries_def)

lemma queries_Cons [simp]: "queries (e # tr) = (if is_query e then Suc (queries tr) else queries tr)"
  by (simp add: queries_def)

lemma sleeps_Nil [simp]: "sleeps [] = 0"
  by (simp add: sleeps_def)

lemma sleeps_Cons [simp]: "sleeps (e # tr) = (if is_sleep e then Suc (sleeps tr) else sleeps tr)"
  by (simp add: sleeps_def)

lemma token_requests_Nil [simp]: "token_requests [] = 0"
  by (simp add: token_requests_def)

lemma token_requests_Cons [simp]:
  "token_requests (e # tr) = (if is_token e then Suc (token_requests tr) else token_requests tr)"
  by (simp add: token_requests_def)

lemma responses_Nil [simp]: "responses [] = []"
  by (simp add: responses_def)

lemma responses_Cons [simp]:
  "responses (e # tr) = (if is_response e then e # responses tr else responses tr)"
  by (simp add: responses_def)

lemma is_copy_download: "is_copy e \<Longrightarrow> is_download e"
  by (cases e) simp_all

lemma is_download_quiet: "is_download e \<Longrightarrow> quiet e"
  by (cases e) (simp_all add: quiet_def)

lemma list_all_copy_download: "list_all is_copy new \<Longrightarrow> list_all is_download new"
  by (induction new) (simp_all add: is_copy_download)

lemma list_all_download_quiet: "list_all is_download new \<Longrightarrow> list_all quiet new"
  by (induction new) (simp_all add: is_download_quiet)

text \<open>Quiet events change none of the readings of the log.\<close>

lemma quiet_queries: "list_all quiet new \<Longrightarrow> queries (new @ tr) = queries tr"
  by (induction new) (simp_all add: quiet_def)

lemma quiet_sleeps: "list_all quiet new \<Longrightarrow> sleeps (new @ tr) = sleeps tr"
  by (induction new) (simp_all add: quiet_def)

lemma quiet_responses: "list_all quiet new \<Longrightarrow> responses (new @ tr) = responses tr"
  by (induction new) (simp_all add: quiet_def)

lemma quiet_Cons_slept:
  "quiet e \<Longrightarrow> slept_since_query (e # tr) = slept_since_query tr"
  by (cases e) (simp_all add: quiet_def)

lemma quiet_slept: "list_all quiet new \<Longrightarrow> slept_since_query (new @ tr) = slept_since_query tr"
  by (induction new) (simp_all add: quiet_Cons_slept)

lemma quiet_Cons_waits:
  "quiet e \<Longrightarrow> waits_before_queries d (e # tr) = waits_before_queries d tr"
  by (cases e) (simp_all add: quiet_def)

lemma quiet_waits:
  "list_all quiet new \<Longrightarrow> waits_before_queries d (new @ tr) = waits_before_queries d tr"
  by (induction new) (simp_all add: quiet_Cons_waits)

lemma quiet_Cons_first:
  "quiet e \<Longrightarrow> wait_before_first_query (e # tr) = wait_before_first_query tr"
  by (cases e) (simp_all add: quiet_def)

lemma quiet_first:
  "list_all quiet new \<Longrightarrow> wait_before_first_query (new @ tr) = wait_before_first_query tr"
  by (induction new) (simp_all add: quiet_Cons_first)

lemma quiet_Cons_codes: "quiet e \<Longrightarrow> status_codes (e # tr) = status_codes tr"
  by (cases e) (simp_all add: quiet_def)

lemma quiet_codes: "list_all quiet new \<Longrightarrow> status_codes (new @ tr) = status_codes tr"
  by (induction new) (simp_all add: quiet_Cons_codes)

lemma quiet_Cons_bodies: "quiet e \<Longrightarrow> response_bodies (e # tr) = response_bodies tr"
  by (cases e) (simp_all add: quiet_def)

lemma quiet_bodies: "list_all quiet new \<Longrightarrow> response_bodies (new @ tr) = response_bodies tr"
  by (induction new) (simp_all add: quiet_Cons_bodies)

lemma written_chunks_append:
  "written_chunks (xs @ ys) = written_chunks xs @ written_chunks ys"
  by (induction xs rule: written_chunks.induct) simp_all

lemma opened_files_append: "opened_files (xs @ ys) = opened_files xs @ opened_files ys"
  by (induction xs rule: opened_files.induct) simp_all

lemma streams_opened_append: "streams_opened (xs @ ys) = streams_opened xs @ streams_opened ys"
  by (induction xs rule: streams_opened.induct) simp_all

lemma streams_released_append:
  "streams_released (xs @ ys) = streams_released xs @ streams_released ys"
  by (induction xs rule: streams_released.induct) simp_all

lemma copy_opened_files: "list_all is_copy new \<Longrightarrow> opened_files new = []"
  by (induction new rule: opened_files.induct) simp_all

lemma copy_streams_opened: "list_all is_copy new \<Longrightarrow> streams_opened new = []"
  by (induction new rule: streams_opened.induct) simp_all

subsection \<open>The API calls\<close>

lemma snd_get_access_token: "snd (get_access_token env w) = emit TokenRequest w"
  by (simp add: get_access_token_def split: sum.splits option.splits)

lemma get_access_token_world: "get_access_token env w = (res, w1) \<Longrightarrow> w1 = emit TokenRequest w"
  using snd_get_access_token [of env w] by simp

lemma create_project_quiet:
  "\<exists>new. trace (snd (create_project env state_id user_id fmt color_space resolution w)) = new @ trace w
     \<and> list_all quiet new"
proof -
  have a: "\<exists>new. TokenRequest # trace w = new @ trace w \<and> list_all quiet new"
    by (rule exI [of _ "[TokenRequest]"]) (simp add: quiet_def)
  have b: "\<exists>new. CreateProject pl # TokenRequest # trace w = new @ trace w \<and> list_all quiet new" for pl
    by (rule exI [of _ "[CreateProject pl, TokenRequest]"]) (simp add: quiet_def)
  show ?thesis
    using a b
    by (auto simp: create_project_def Let_def dest!: get_access_token_world
        split: prod.splits sum.splits)
qed

subsection \<open>Downloads\<close>

lemma chunk_size_pos: "0 < chunk_size"
  by (simp add: chunk_size_def)

lemma get_access_token_granted:
  "granted (token_reply env (token_requests (trace w))) \<Longrightarrow>
   \<exists>t. get_access_token env w = (Inr t, emit TokenRequest w)"
  by (cases "token_reply env (token_requests (trace w))")
     (auto simp: get_access_token_def)

text \<open>
  The four ways a pass of the copy loop can go: the response is closed already; the
  read raises; the read takes the last bytes of the body; more of the body is left.
\<close>

lemma loop_closed:
  "\<not> conn_held r \<Longrightarrow>
   read_write_loop rfault wfault u filename i r w = (Inr r, emit (Read chunk_size) w)"
  by (subst read_write_loop.simps) (simp add: r_read_def)

lemma loop_error:
  "conn_held r \<Longrightarrow> rfault = Some i \<Longrightarrow>
   read_write_loop rfault wfault u filename i r w =
     (Inl TransportError, emit (ReleaseConn u) (emit (Read chunk_size) w))"
  by (subst read_write_loop.simps) (simp add: r_read_def)

lemma loop_last:
  assumes "conn_held r" "rfault \<noteq> Some i" "length (unread r) \<le> chunk_size"
  shows "read_write_loop rfault wfault u filename i r w =
     (if unread r = [] then
        (Inr \<lparr>conn_held = False, unread = []\<rparr>, emit (ReleaseConn u) (emit (Read chunk_size) w))
      else if wfault = Some i then
        (Inl OSError, emit (ReleaseConn u) (emit (Read chunk_size) w))
      else
        (Inr \<lparr>conn_held = False, unread = []\<rparr>,
         emit (Read chunk_size)
           (write_file filename (unread r) (emit (ReleaseConn u) (emit (Read chunk_size) w)))))"
proof -
  have rd: "r_read rfault u i r w =
      (Inr (unread r, \<lparr>conn_held = False, unread = []\<rparr>),
       emit (ReleaseConn u) (emit (Read chunk_size) w))"
    using assms by (simp add: r_read_def)
  show ?thesis
    by (subst read_write_loop.simps) (simp add: rd loop_closed)
qed

lemma loop_more:
  assumes "conn_held r" "rfault \<noteq> Some i" "chunk_size < length (unread r)"
  shows "read_write_loop rfault wfault u filename i r w =
     (if wfault = Some i then (Inl OSError, emit (Read chunk_size) w)
      else read_write_loop rfault wfault u filename (i + 1)
             (r\<lparr>unread := drop chunk_size (unread r)\<rparr>)
             (write_file filename (take chunk_size (unread r)) (emit (Read chunk_size) w)))"
proof -
  have "take chunk_size (unread r) \<noteq> []"
    using assms(3) chunk_size_pos by (cases "unread r") auto
  moreover have "r_read rfault u i r w =
      (Inr (take chunk_size (unread r), r\<lparr>unread := drop chunk_size (unread r)\<rparr>),
       emit (Read chunk_size) w)"
    using assms by (simp add: r_read_def)
  ultimately show ?thesis
    by (subst read_write_loop.simps) simp
qed

lemma read_write_loop_copy:
  "\<exists>new. trace (snd (read_write_loop rfault wfault u filename i r w)) = new @ trace w
     \<and> list_all is_copy new"
proof (induction "length (unread r)" arbitrary: r w i rule: less_induct)
  case less
  have one: "\<exists>new. Read chunk_size # trace w = new @ trace w \<and> list_all is_copy new"
    by (rule exI [of _ "[Read chunk_size]"]) simp
  have two: "\<exists>new. ReleaseConn u # Read chunk_size # trace w = new @ trace w
      \<and> list_all is_copy new"
    by (rule exI [of _ "[ReleaseConn u, Read chunk_size]"]) simp
  have four: "\<exists>new. Read chunk_size # Write filename d # ReleaseConn u # Read chunk_size # trace w
      = new @ trace w \<and> list_all is_copy new" for d
    by (rule exI [of _ "[Read chunk_size, Write filename d, ReleaseConn u, Read chunk_size]"]) simp
  consider (closed) "\<not> conn_held r" | (error) "conn_held r" "rfault = Some i"
    | (last) "conn_held r" "rfault \<noteq> Some i" "length (unread r) \<le> chunk_size"
    | (more) "conn_held r" "rfault \<noteq> Some i" "chunk_size < length (unread r)"
    by fastforce
  then show ?case
  proof cases
    case closed
    then show ?thesis
      using one by (simp add: loop_closed)
  next
    case error
    then show ?thesis
      using two by (simp add: loop_error)
  next
    case last
    then show ?thesis
      using two four by (simp add: loop_last write_file_def)
  next
    case more
    show ?thesis
    proof (cases "wfault = Some i")
      case True
      then show ?thesis
        using one more by (simp add: loop_more)
    next
      case False
      let ?r1 = "r\<lparr>unread := drop chunk_size (unread r)\<rparr>"
      let ?w1 = "write_file filename (take chunk_size (unread r)) (emit (Read chunk_size) w)"
      have "length (unread ?r1) < length (unread r)"
        using more(3) chunk_size_pos by simp
      from less [OF this, of "i + 1" ?w1]
      obtain new where new: "trace (snd (read_write_loop rfault wfault u filename (i + 1) ?r1 ?w1))
            = new @ trace ?w1" "list_all is_copy new"
        by blast
      have "trace ?w1 = [Write filename (take chunk_size (unread r)), Read chunk_size] @ trace w"
        by (simp add: write_file_def)
      then have "trace (snd (read_write_loop rfault wfault u filename i r w)) =
          (new @ [Write filename (take chunk_size (unread r)), Read chunk_size]) @ trace w"
        using more False new(1) by (simp add: loop_more)
      moreover have "list_all is_copy
          (new @ [Write filename (take chunk_size (unread r)), Read chunk_size])"
        using new(2) by simp
      ultimately show ?thesis
        by blast
    qed
  qed
qed


text \<open>
  The copy loop without faults appends the whole body to the open file, in chunks of
  at most \<open>chunk_size\<close> bytes, and the connection goes back to the pool once.
\<close>

lemma read_write_loop_ok:
  "conn_held r \<Longrightarrow> files w filename = Some old \<Longrightarrow>
   \<exists>new. read_write_loop None None u filename i r w =
       (Inr \<lparr>conn_held = False, unread = []\<rparr>,
        w\<lparr>trace := new @ trace w, files := (files w)(filename \<mapsto> old @ unread r)\<rparr>)
     \<and> list_all is_copy new
     \<and> streams_released new = [u]
     \<and> (\<forall>c\<in>set (written_chunks new). 0 < length c \<and> length c \<le> chunk_size)
     \<and> concat (rev (written_chunks new)) = unread r"
proof (induction "length (unread r)" arbitrary: r w i old rule: less_induct)
  case less
  have same: "(files w)(filename \<mapsto> old) = files w"
    using less.prems(2) by (simp add: map_upd_triv)
  show ?case
  proof (cases "length (unread r) \<le> chunk_size")
    case True
    show ?thesis
    proof (cases "unread r = []")
      case empty: True
      let ?new = "[ReleaseConn u, Read chunk_size]"
      have "read_write_loop None None u filename i r w =
          (Inr \<lparr>conn_held = False, unread = []\<rparr>,
           w\<lparr>trace := ?new @ trace w, files := (files w)(filename \<mapsto> old @ unread r)\<rparr>)"
        using less.prems(1) True empty same by (simp add: loop_last emit_def)
      moreover have "list_all is_copy ?new" "streams_released ?new = [u]"
        by simp_all
      moreover have "\<forall>c\<in>set (written_chunks ?new). 0 < length c \<and> length c \<le> chunk_size"
        by simp
      moreover have "concat (rev (written_chunks ?new)) = unread r"
        using empty by simp
      ultimately show ?thesis
        by blast
    next
      case False
      let ?new = "[Read chunk_size, Write filename (unread r), ReleaseConn u, Read chunk_size]"
      have "read_write_loop None None u filename i r w =
          (Inr \<lparr>conn_held = False, unread = []\<rparr>,
           w\<lparr>trace := ?new @ trace w, files := (files w)(filename \<mapsto> old @ unread r)\<rparr>)"
        using less.prems True False by (simp add: loop_last emit_def write_file_def)
      moreover have "list_all is_copy ?new" "streams_released ?new = [u]"
        by simp_all
      moreover have "\<forall>c\<in>set (written_chunks ?new). 0 < length c \<and> length c \<le> chunk_size"
        using True False by simp
      moreover have "concat (rev (written_chunks ?new)) = unread r"
        by simp
      ultimately show ?thesis
        by blast
    qed
  next
    case False
    then have more: "chunk_size < length (unread r)"
      by simp
    let ?d = "take chunk_size (unread r)"
    let ?r1 = "r\<lparr>unread := drop chunk_size (unread r)\<rparr>"
    let ?w1 = "write_file filename ?d (emit (Read chunk_size) w)"
    have shorter: "length (unread ?r1) < length (unread r)"
      using more chunk_size_pos by simp
    have held: "conn_held ?r1"
      using less.prems(1) by simp
    have f1: "files ?w1 filename = Some (old @ ?d)"
      using less.prems(2) by (simp add: write_file_def)
    have len_d: "length ?d = chunk_size"
      using more by simp
    from less.hyps [OF shorter held f1, of "i + 1"]
    obtain new where
      run: "read_write_loop None None u filename (i + 1) ?r1 ?w1 =
         (Inr \<lparr>conn_held = False, unread = []\<rparr>,
          ?w1\<lparr>trace := new @ trace ?w1,
            files := (files ?w1)(filename \<mapsto> (old @ ?d) @ unread ?r1)\<rparr>)"
      and copy: "list_all is_copy new"
      and rel: "streams_released new = [u]"
      and bound: "\<forall>c\<in>set (written_chunks new). 0 < length c \<and> length c \<le> chunk_size"
      and cat: "concat (rev (written_chunks new)) = unread ?r1"
      by blast
    let ?new = "new @ [Write filename ?d, Read chunk_size]"
    have w_eq: "?w1\<lparr>trace := new @ trace ?w1,
            files := (files ?w1)(filename \<mapsto> (old @ ?d) @ unread ?r1)\<rparr>
        = w\<lparr>trace := ?new @ trace w, files := (files w)(filename \<mapsto> old @ unread r)\<rparr>"
      by (simp add: write_file_def emit_def)
    have "read_write_loop None None u filename i r w =
        (Inr \<lparr>conn_held = False, unread = []\<rparr>,
         w\<lparr>trace := ?new @ trace w, files := (files w)(filename \<mapsto> old @ unread r)\<rparr>)"
      using less.prems(1) more run w_eq by (simp add: loop_more)
    moreover have "list_all is_copy ?new"
      using copy by simp
    moreover have "streams_released ?new = [u]"
      using rel by (simp add: streams_released_append)
    moreover have "\<forall>c\<in>set (written_chunks ?new). 0 < length c \<and> length c \<le> chunk_size"
      using bound len_d chunk_size_pos by (auto simp: written_chunks_append)
    moreover have "concat (rev (written_chunks ?new)) = unread r"
      using cat by (simp add: written_chunks_append)
    ultimately show ?thesis
      by blast
  qed
qed




text \<open>A download without faults: the result, the disk and the log.\<close>

lemma download_file_ok:
  assumes tok: "granted (token_reply env (token_requests (trace w)))"
    and reply: "stream_reply env u = Inr r"
    and faults: "read_fault r = None" "\<not> open_fault env filename" "write_fault env filename = None"
      "\<not> close_fault env filename"
  shows "\<exists>new. download_file env u filename w =
       (Inr (), w\<lparr>trace := new @ trace w, files := (files w)(filename \<mapsto> content r)\<rparr>)
     \<and> list_all is_download new
     \<and> opened_files new = [filename]
     \<and> streams_released new = [u]
     \<and> (\<forall>c\<in>set (written_chunks new). 0 < length c \<and> length c \<le> chunk_size)
     \<and> concat (rev (written_chunks new)) = content r"
proof -
  obtain t where t: "get_access_token env w = (Inr t, emit TokenRequest w)"
    using get_access_token_granted [OF tok] by blast
  let ?w2 = "open_wb filename (emit (StreamRequest u) (emit TokenRequest w))"
  let ?r0 = "\<lparr>conn_held = True, unread = content r\<rparr>"
  have f2: "files ?w2 filename = Some []"
    by (simp add: open_wb_def)
  have held: "conn_held ?r0"
    by simp
  from read_write_loop_ok [OF held f2, of u 0]
  obtain new where
    run: "read_write_loop None None u filename 0 ?r0 ?w2 =
       (Inr \<lparr>conn_held = False, unread = []\<rparr>,
        ?w2\<lparr>trace := new @ trace ?w2,
          files := (files ?w2)(filename \<mapsto> [] @ unread ?r0)\<rparr>)"
    and copy: "list_all is_copy new"
    and rel: "streams_released new = [u]"
    and bound: "\<forall>c\<in>set (written_chunks new). 0 < length c \<and> length c \<le> chunk_size"
    and cat: "concat (rev (written_chunks new)) = unread ?r0"
    by blast
  let ?new = "CloseFile filename # new @ [OpenFile filename, StreamRequest u, TokenRequest]"
  have "download_file env u filename w =
       (Inr (), w\<lparr>trace := ?new @ trace w, files := (files w)(filename \<mapsto> content r)\<rparr>)"
    using t reply faults run
    by (simp add: download_file_def open_wb_def emit_def release_conn_def)
  moreover have "list_all is_download ?new"
    using list_all_copy_download [OF copy] by simp
  moreover have "opened_files ?new = [filename]"
    using copy by (simp add: opened_files_append copy_opened_files)
  moreover have "streams_released ?new = [u]"
    using rel by (simp add: streams_released_append)
  moreover have "\<forall>c\<in>set (written_chunks ?new). 0 < length c \<and> length c \<le> chunk_size"
    using bound by (simp add: written_chunks_append)
  moreover have "concat (rev (written_chunks ?new)) = content r"
    using cat by (simp add: written_chunks_append)
  ultimately show ?thesis
    by blast
qed

text \<open>The events of a download, whatever the environment does.\<close>

lemma download_file_download:
  "\<exists>new. trace (snd (download_file env u filename w)) = new @ trace w
     \<and> list_all is_download new"
proof -
  obtain r1 where tok: "get_access_token env w = (r1, emit TokenRequest w)"
    using snd_get_access_token [of env w] by (cases "get_access_token env w") simp
  have short: "\<exists>new. StreamRequest u # TokenRequest # trace w = new @ trace w
      \<and> list_all is_download new"
    by (rule exI [of _ "[StreamRequest u, TokenRequest]"]) simp
  show ?thesis
  proof (cases r1)
    case (Inl e)
    then have "download_file env u filename w = (Inl e, emit TokenRequest w)"
      using tok by (simp add: download_file_def)
    then show ?thesis
      by (intro exI [of _ "[TokenRequest]"]) simp
  next
    case t: (Inr t)
    show ?thesis
    proof (cases "stream_reply env u")
      case (Inl e)
      then show ?thesis
        using tok t short by (simp add: download_file_def)
    next
      case r: (Inr r)
      show ?thesis
      proof (cases "open_fault env filename")
        case True
        then show ?thesis
          using tok t r short by (simp add: download_file_def)
      next
        case False
        let ?w2 = "open_wb filename (emit (StreamRequest u) (emit TokenRequest w))"
        let ?loop = "read_write_loop (read_fault r) (write_fault env filename) u filename 0
                       \<lparr>conn_held = True, unread = content r\<rparr> ?w2"
        obtain new where new: "trace (snd ?loop) = new @ trace ?w2" "list_all is_copy new"
          using read_write_loop_copy by blast
        obtain r3 w3 where loop: "?loop = (r3, w3)"
          by fastforce
        have t3: "trace w3 = new @ OpenFile filename # StreamRequest u # TokenRequest # trace w"
          using new(1) loop by (simp add: open_wb_def)
        have dl: "list_all is_download new"
          using new(2) by (rule list_all_copy_download)
        let ?a = "CloseFile filename # new @ [OpenFile filename, StreamRequest u, TokenRequest]"
        let ?b = "ReleaseConn u # CloseFile filename # new
                    @ [OpenFile filename, StreamRequest u, TokenRequest]"
        have "trace (snd (download_file env u filename w)) = ?a @ trace w
            \<or> trace (snd (download_file env u filename w)) = ?b @ trace w"
          using tok t r False loop t3
          by (cases r3) (simp_all add: download_file_def release_conn_def)
        moreover have "list_all is_download ?a" "list_all is_download ?b"
          using dl by simp_all
        ultimately show ?thesis
          by blast
      qed
    qed
  qed
qed



lemma download_all_download:
  "\<exists>new. trace (snd (download_all env ds w)) = new @ trace w \<and> list_all is_download new"
proof (induction ds arbitrary: w)
  case Nil
  show ?case by simp
next
  case (Cons d ds)
  show ?case
  proof (cases "url d")
    case None
    then show ?thesis by simp
  next
    case u: (Some u)
    show ?thesis
    proof (cases "fd_name d")
      case None
      then show ?thesis using u by simp
    next
      case n: (Some n)
      obtain r1 w1 where dl: "download_file env u (n @ ''.pdf'') w = (r1, w1)"
        by fastforce
      obtain new1 where new1: "trace w1 = new1 @ trace w" "list_all is_download new1"
        using download_file_download [of env u "n @ ''.pdf''" w] dl by auto
      show ?thesis
      proof (cases r1)
        case (Inl e)
        then show ?thesis
          using u n dl new1 by auto
      next
        case (Inr x)
        obtain new2 where new2: "trace (snd (download_all env ds w1)) = new2 @ trace w1"
            "list_all is_download new2"
          using Cons.IH by blast
        have "trace (snd (download_all env (d # ds) w)) = (new2 @ new1) @ trace w"
          using u n dl Inr new1(1) new2(1) by simp
        moreover have "list_all is_download (new2 @ new1)"
          using new1(2) new2(2) by simp
        ultimately show ?thesis
          by blast
      qed
    qed
  qed
qed

lemma download_all_quiet:
  "\<exists>new. trace (snd (download_all env ds w)) = new @ trace w \<and> list_all quiet new"
  using download_all_download [of env ds w] list_all_download_quiet by blast

lemma fault_freeE:
  assumes "fault_free env d"
  obtains u n r where "url d = Some u" "fd_name d = Some n" "stream_reply env u = Inr r"
    "read_fault r = None" "\<not> open_fault env (n @ ''.pdf'')" "write_fault env (n @ ''.pdf'') = None"
    "local_name d = n @ ''.pdf''" "remote_content env d = content r"
    "\<not> close_fault env (n @ ''.pdf'')"
  using assms
  by (auto simp: fault_free_def local_name_def remote_content_def split: option.splits sum.splits)

text \<open>
  A download of descriptors without faults: the result, the disk and the log.
\<close>

lemma download_all_ok:
  assumes tok: "\<forall>n. granted (token_reply env n)"
  shows "\<forall>d\<in>set ds. fault_free env d \<Longrightarrow>
    \<exists>new. download_all env ds w =
        (Inr (), w\<lparr>trace := new @ trace w, files := saved env (files w) ds\<rparr>)
      \<and> list_all is_download new
      \<and> opened_files new = rev (map local_name ds)
      \<and> (\<forall>c\<in>set (written_chunks new). 0 < length c \<and> length c \<le> chunk_size)
      \<and> concat (rev (written_chunks new)) = concat (map (remote_content env) ds)"
proof (induction ds arbitrary: w)
  case Nil
  have "download_all env [] w = (Inr (), w\<lparr>trace := [] @ trace w, files := saved env (files w) []\<rparr>)"
    by (simp add: saved_def)
  then show ?case
    by (intro exI [of _ "[]"]) simp
next
  case (Cons d ds)
  from Cons.prems have "fault_free env d"
    by simp
  then obtain u n r where d: "url d = Some u" "fd_name d = Some n" "stream_reply env u = Inr r"
    "read_fault r = None" "\<not> open_fault env (n @ ''.pdf'')" "write_fault env (n @ ''.pdf'') = None"
    "local_name d = n @ ''.pdf''" "remote_content env d = content r"
    "\<not> close_fault env (n @ ''.pdf'')"
    by (rule fault_freeE)
  let ?f = "n @ ''.pdf''"
  have g: "granted (token_reply env (token_requests (trace w)))"
    using tok by simp
  from download_file_ok [OF g d(3) d(4) d(5) d(6) d(9)]
  obtain new1 where
    run1: "download_file env u ?f w =
       (Inr (), w\<lparr>trace := new1 @ trace w, files := (files w)(?f \<mapsto> content r)\<rparr>)"
    and dl1: "list_all is_download new1"
    and op1: "opened_files new1 = [?f]"
    and b1: "\<forall>c\<in>set (written_chunks new1). 0 < length c \<and> length c \<le> chunk_size"
    and c1: "concat (rev (written_chunks new1)) = content r"
    by blast
  let ?w1 = "w\<lparr>trace := new1 @ trace w, files := (files w)(?f \<mapsto> content r)\<rparr>"
  from Cons.prems have rest: "\<forall>d\<in>set ds. fault_free env d"
    by simp
  from Cons.IH [OF rest, of ?w1]
  obtain new2 where
    run2: "download_all env ds ?w1 =
       (Inr (), ?w1\<lparr>trace := new2 @ trace ?w1, files := saved env (files ?w1) ds\<rparr>)"
    and dl2: "list_all is_download new2"
    and op2: "opened_files new2 = rev (map local_name ds)"
    and b2: "\<forall>c\<in>set (written_chunks new2). 0 < length c \<and> length c \<le> chunk_size"
    and c2: "concat (rev (written_chunks new2)) = concat (map (remote_content env) ds)"
    by blast
  have "download_all env (d # ds) w =
      (Inr (), w\<lparr>trace := (new2 @ new1) @ trace w, files := saved env (files w) (d # ds)\<rparr>)"
    using d(1,2,7,8) run1 run2 by (simp add: saved_def)
  moreover have "list_all is_download (new2 @ new1)"
    using dl1 dl2 by simp
  moreover have "opened_files (new2 @ new1) = rev (map local_name (d # ds))"
    using op1 op2 d(7) by (simp add: opened_files_append)
  moreover have "\<forall>c\<in>set (written_chunks (new2 @ new1)). 0 < length c \<and> length c \<le> chunk_size"
    using b1 b2 by (auto simp: written_chunks_append)
  moreover have "concat (rev (written_chunks (new2 @ new1))) = concat (map (remote_content env) (d # ds))"
    using c1 c2 d(8) by (simp add: written_chunks_append)
  ultimately show ?case
    by blast
qed

lemma saved_other: "f \<notin> local_name ` set ds \<Longrightarrow> saved env m ds f = m f"
  by (induction ds arbitrary: m) (simp_all add: saved_def)

lemma saved_distinct:
  "distinct (map local_name ds) \<Longrightarrow> d \<in> set ds \<Longrightarrow>
   saved env m ds (local_name d) = Some (remote_content env d)"
proof (induction ds arbitrary: m)
  case Nil
  then show ?case by simp
next
  case (Cons a ds)
  have step: "saved env m (a # ds) = saved env (m(local_name a \<mapsto> remote_content env a)) ds"
    by (simp add: saved_def)
  show ?case
  proof (cases "d \<in> set ds")
    case True
    then show ?thesis
      using Cons by (simp add: step)
  next
    case False
    then have "d = a"
      using Cons.prems(2) by simp
    moreover have "local_name a \<notin> local_name ` set ds"
      using Cons.prems(1) by simp
    ultimately show ?thesis
      by (simp add: step saved_other)
  qed
qed

lemma dom_saved: "dom (saved env m ds) = dom m \<union> local_name ` set ds"
  by (induction ds arbitrary: m) (auto simp: saved_def)

subsection \<open>The polling loop\<close>

text \<open>
  What one pass through the loop body does to the log, and what it returns: either no
  status query is issued and the pass raises, or exactly one is issued, after the sleep
  and the token request, and a normal end reflects the reply.
\<close>

lemma iteration_shape:
  assumes run: "iteration env project s w = (res, w1)"
  shows "(\<exists>new. trace w1 = new @ Sleep 3 # trace w \<and> list_all quiet new \<and> isl res)
       \<or> (\<exists>new pid. trace w1 = new @ StatusQuery pid # TokenRequest # Sleep 3 # trace w
            \<and> list_all quiet new
            \<and> id_field project = Some pid
            \<and> (\<forall>s1. res = Inr s1 \<longrightarrow>
                  (\<exists>r. status_reply env pid (queries (trace w)) = Inr r \<and>
                    ((status r = Some ''Completed''
                        \<and> s1 = s\<lparr>isPending := False, isSuccess := True, counter := counter s + 1\<rparr>)
                     \<or> (status r \<noteq> Some ''Completed'' \<and> status r \<noteq> Some ''Failed''
                        \<and> s1 = s\<lparr>counter := counter s + 1\<rparr> \<and> new = [])))))"
proof (cases "id_field project")
  case None
  then have "res = Inl (KeyError ''id'')" "w1 = emit (Sleep 3) w"
    using run by (simp_all add: iteration_def)
  then have "trace w1 = [] @ Sleep 3 # trace w \<and> list_all quiet [] \<and> isl res"
    by simp
  then show ?thesis
    by blast
next
  case pid: (Some pid)
  let ?w0 = "emit (Sleep 3) w"
  obtain r1 where tok: "get_access_token env ?w0 = (r1, emit TokenRequest ?w0)"
    using snd_get_access_token [of env ?w0] by (cases "get_access_token env ?w0") simp
  show ?thesis
  proof (cases r1)
    case (Inl e)
    then have "res = Inl e" "w1 = emit TokenRequest ?w0"
      using run pid tok by (simp_all add: iteration_def check_project_results_def)
    then have "trace w1 = [TokenRequest] @ Sleep 3 # trace w \<and> list_all quiet [TokenRequest] \<and> isl res"
      by (simp add: quiet_def)
    then show ?thesis
      by blast
  next
    case t: (Inr t)
    let ?w2 = "emit (StatusQuery pid) (emit TokenRequest ?w0)"
    let ?reply = "status_reply env pid (queries (trace w))"
    have chk: "check_project_results env pid ?w0 =
        (case ?reply of Inl e \<Rightarrow> (Inl e, ?w2) | Inr result \<Rightarrow> (Inr result, ?w2))"
      using tok t by (simp add: check_project_results_def)
    have t2: "trace ?w2 = StatusQuery pid # TokenRequest # Sleep 3 # trace w"
      by simp
    have plain: "w1 = ?w2 \<Longrightarrow> \<forall>s1. res \<noteq> Inr s1 \<Longrightarrow> ?thesis"
    proof -
      assume "w1 = ?w2" and "\<forall>s1. res \<noteq> Inr s1"
      then have "trace w1 = [] @ StatusQuery pid # TokenRequest # Sleep 3 # trace w
          \<and> list_all quiet [] \<and> id_field project = Some pid \<and> (\<forall>s1. res \<noteq> Inr s1)"
        using pid by simp
      then show ?thesis
        by blast
    qed
    show ?thesis
    proof (cases ?reply)
      case (Inl e)
      then have "res = Inl e" "w1 = ?w2"
        using run pid chk by (simp_all add: iteration_def)
      then show ?thesis
        by (intro plain) simp_all
    next
      case r: (Inr r)
      show ?thesis
      proof (cases "status r")
        case None
        then have "res = Inl (KeyError ''status'')" "w1 = ?w2"
          using run pid chk r by (simp_all add: iteration_def)
        then show ?thesis
          by (intro plain) simp_all
      next
        case st: (Some st)
        consider (completed) "st = ''Completed''" | (failed) "st = ''Failed''"
          | (other) "st \<noteq> ''Completed''" "st \<noteq> ''Failed''"
          by blast
        then show ?thesis
        proof cases
          case failed
          then have "res = Inl (AttributeError ''statusDescription'')" "w1 = ?w2"
            using run pid chk r st by (simp_all add: iteration_def)
          then show ?thesis
            by (intro plain) simp_all
        next
          case other
          then have "res = Inr (s\<lparr>counter := counter s + 1\<rparr>)" "w1 = ?w2"
            using run pid chk r st by (simp_all add: iteration_def)
          then have "trace w1 = [] @ StatusQuery pid # TokenRequest # Sleep 3 # trace w
             \<and> list_all quiet []
             \<and> id_field project = Some pid
             \<and> (\<forall>s1. res = Inr s1 \<longrightarrow>
                  (\<exists>r. ?reply = Inr r \<and>
                    ((status r = Some ''Completed''
                        \<and> s1 = s\<lparr>isPending := False, isSuccess := True, counter := counter s + 1\<rparr>)
                     \<or> (status r \<noteq> Some ''Completed'' \<and> status r \<noteq> Some ''Failed''
                        \<and> s1 = s\<lparr>counter := counter s + 1\<rparr> \<and> [] = []))))"
            using pid r st other by simp
          then show ?thesis
            by blast
        next
          case completed
          show ?thesis
          proof (cases "outputFileDetails r")
            case None
            then have "res = Inl (KeyError ''outputFileDetails'')" "w1 = ?w2"
              using run pid chk r st completed by (simp_all add: iteration_def)
            then show ?thesis
              by (intro plain) simp_all
          next
            case ds: (Some ds)
            obtain r3 w3 where dl: "download_all env ds ?w2 = (r3, w3)"
              by fastforce
            obtain new where new: "trace w3 = new @ trace ?w2" "list_all quiet new"
              using download_all_quiet [of env ds ?w2] dl by auto
            have w1: "w1 = w3"
              using run pid chk r st completed ds dl
              by (cases r3) (simp_all add: iteration_def)
            have res: "res = (case r3 of Inl e \<Rightarrow> Inl e
                | Inr x \<Rightarrow> Inr (s\<lparr>isPending := False, isSuccess := True, counter := counter s + 1\<rparr>))"
              using run pid chk r st completed ds dl
              by (cases r3) (simp_all add: iteration_def)
            have "trace w1 = new @ StatusQuery pid # TokenRequest # Sleep 3 # trace w
             \<and> list_all quiet new
             \<and> id_field project = Some pid
             \<and> (\<forall>s1. res = Inr s1 \<longrightarrow>
                  (\<exists>r. ?reply = Inr r \<and>
                    ((status r = Some ''Completed''
                        \<and> s1 = s\<lparr>isPending := False, isSuccess := True, counter := counter s + 1\<rparr>)
                     \<or> (status r \<noteq> Some ''Completed'' \<and> status r \<noteq> Some ''Failed''
                        \<and> s1 = s\<lparr>counter := counter s + 1\<rparr> \<and> new = []))))"
              using pid r st completed new w1 res by (cases r3) simp_all
            then show ?thesis
              by blast
          qed
        qed
      qed
    qed
  qed
qed

lemma iteration_Inr:
  assumes "iteration env project s w = (Inr s1, w1)"
  shows "\<exists>new pid r. trace w1 = new @ StatusQuery pid # TokenRequest # Sleep 3 # trace w
            \<and> list_all quiet new
            \<and> id_field project = Some pid
            \<and> status_reply env pid (queries (trace w)) = Inr r
            \<and> ((status r = Some ''Completed''
                   \<and> s1 = s\<lparr>isPending := False, isSuccess := True, counter := counter s + 1\<rparr>)
                \<or> (status r \<noteq> Some ''Completed'' \<and> status r \<noteq> Some ''Failed''
                   \<and> s1 = s\<lparr>counter := counter s + 1\<rparr> \<and> new = []))"
  using iteration_shape [OF assms] by auto

lemma iteration_counter:
  "iteration env project s w = (Inr s1, w1) \<Longrightarrow> counter s1 = counter s + 1"
  using iteration_Inr [of env project s w s1 w1] by auto

lemma iteration_failureDetails:
  "iteration env project s w = (Inr s1, w1) \<Longrightarrow> failureDetails s1 = failureDetails s"
  using iteration_Inr [of env project s w s1 w1] by auto

lemma iteration_trace:
  assumes "iteration env project s w = (res, w1)"
  shows "\<exists>new. list_all quiet new \<and>
     (trace w1 = new @ Sleep 3 # trace w
      \<or> (\<exists>pid. trace w1 = new @ StatusQuery pid # TokenRequest # Sleep 3 # trace w))"
  using iteration_shape [OF assms] by auto

text \<open>An induction rule for the polling loop: it stops, an iteration raises, or an
  iteration ends normally and the loop goes on.\<close>

lemma poll_stop:
  "\<not> (isPending s \<and> counter s < 20) \<Longrightarrow> poll env project s w = (Inr s, w)"
  by (subst poll.simps) auto

lemma poll_rule:
  assumes stop: "\<And>s w. \<not> (isPending s \<and> counter s < 20) \<Longrightarrow> P s w (Inr s) w"
    and fail: "\<And>s w e w1. isPending s \<Longrightarrow> counter s < 20 \<Longrightarrow>
        iteration env project s w = (Inl e, w1) \<Longrightarrow> P s w (Inl e) w1"
    and step: "\<And>s w s1 w1 res w'. isPending s \<Longrightarrow> counter s < 20 \<Longrightarrow>
        iteration env project s w = (Inr s1, w1) \<Longrightarrow> poll env project s1 w1 = (res, w') \<Longrightarrow>
        P s1 w1 res w' \<Longrightarrow> P s w res w'"
  shows "P s w (fst (poll env project s w)) (snd (poll env project s w))"
proof (induction "20 - counter s" arbitrary: s w)
  case 0
  then have "\<not> (isPending s \<and> counter s < 20)"
    by simp
  then show ?case
    using stop [of s w] by (simp add: poll_stop)
next
  case (Suc n)
  show ?case
  proof (cases "isPending s \<and> counter s < 20")
    case False
    then show ?thesis
      using stop [of s w] by (simp add: poll_stop)
  next
    case True
    obtain r1 w1 where it: "iteration env project s w = (r1, w1)"
      by fastforce
    show ?thesis
    proof (cases r1)
      case (Inl e)
      then have "poll env project s w = (Inl e, w1)"
        using True it by (subst poll.simps) simp
      then show ?thesis
        using fail [of s w e w1] True it Inl by simp
    next
      case (Inr s1)
      then have eq: "poll env project s w = poll env project s1 w1"
        using True it by (subst poll.simps) simp
      have "counter s1 = counter s + 1"
        using it Inr iteration_counter by blast
      then have "n = 20 - counter s1"
        using Suc.hyps(2) by simp
      then have "P s1 w1 (fst (poll env project s1 w1)) (snd (poll env project s1 w1))"
        by (rule Suc.hyps(1))
      then show ?thesis
        using step [of s w s1 w1 "fst (poll env project s1 w1)" "snd (poll env project s1 w1)"]
          True it Inr eq by simp
    qed
  qed
qed

lemma poll_queries:
  "queries (trace (snd (poll env project s w))) \<le> queries (trace w) + (20 - counter s)"
proof (rule poll_rule [where P = "\<lambda>s w res w'. queries (trace w') \<le> queries (trace w) + (20 - counter s)"])
  fix s :: loop_state and w :: world
  show "queries (trace w) \<le> queries (trace w) + (20 - counter s)"
    by simp
next
  fix s w e w1
  assume "counter s < 20" and "iteration env project s w = (Inl e, w1)"
  then show "queries (trace w1) \<le> queries (trace w) + (20 - counter s)"
    using iteration_trace [of env project s w "Inl e" w1]
    by (auto simp: quiet_queries)
next
  fix s w s1 w1 res and w' :: world
  assume "counter s < 20" and it: "iteration env project s w = (Inr s1, w1)"
    and "queries (trace w') \<le> queries (trace w1) + (20 - counter s1)"
  then show "queries (trace w') \<le> queries (trace w) + (20 - counter s)"
    using iteration_trace [OF it] iteration_counter [OF it]
    by (auto simp: quiet_queries)
qed

lemma poll_sleeps:
  "sleeps (trace (snd (poll env project s w))) \<le> sleeps (trace w) + (20 - counter s)"
proof (rule poll_rule [where P = "\<lambda>s w res w'. sleeps (trace w') \<le> sleeps (trace w) + (20 - counter s)"])
  fix s :: loop_state and w :: world
  show "sleeps (trace w) \<le> sleeps (trace w) + (20 - counter s)"
    by simp
next
  fix s w e w1
  assume "counter s < 20" and "iteration env project s w = (Inl e, w1)"
  then show "sleeps (trace w1) \<le> sleeps (trace w) + (20 - counter s)"
    using iteration_trace [of env project s w "Inl e" w1]
    by (auto simp: quiet_sleeps)
next
  fix s w s1 w1 res and w' :: world
  assume "counter s < 20" and it: "iteration env project s w = (Inr s1, w1)"
    and "sleeps (trace w') \<le> sleeps (trace w1) + (20 - counter s1)"
  then show "sleeps (trace w') \<le> sleeps (trace w) + (20 - counter s)"
    using iteration_trace [OF it] iteration_counter [OF it]
    by (auto simp: quiet_sleeps)
qed

text \<open>The polling loop sends nothing to the browser.\<close>

lemma iteration_silent:
  assumes "iteration env project s w = (res, w1)"
  shows "responses (trace w1) = responses (trace w)
     \<and> status_codes (trace w1) = status_codes (trace w)
     \<and> response_bodies (trace w1) = response_bodies (trace w)"
  using iteration_trace [OF assms]
  by (auto simp: quiet_responses quiet_codes quiet_bodies)

lemma poll_silent:
  "responses (trace (snd (poll env project s w))) = responses (trace w)
     \<and> status_codes (trace (snd (poll env project s w))) = status_codes (trace w)
     \<and> response_bodies (trace (snd (poll env project s w))) = response_bodies (trace w)"
proof (rule poll_rule [where P = "\<lambda>s w res w'. responses (trace w') = responses (trace w)
     \<and> status_codes (trace w') = status_codes (trace w)
     \<and> response_bodies (trace w') = response_bodies (trace w)"])
  fix w :: world
  show "responses (trace w) = responses (trace w)
     \<and> status_codes (trace w) = status_codes (trace w)
     \<and> response_bodies (trace w) = response_bodies (trace w)"
    by simp
next
  fix s w e w1
  assume "iteration env project s w = (Inl e, w1)"
  then show "responses (trace w1) = responses (trace w)
     \<and> status_codes (trace w1) = status_codes (trace w)
     \<and> response_bodies (trace w1) = response_bodies (trace w)"
    by (rule iteration_silent)
next
  fix s w s1 w1 res and w' :: world
  assume it: "iteration env project s w = (Inr s1, w1)"
    and "responses (trace w') = responses (trace w1)
     \<and> status_codes (trace w') = status_codes (trace w1)
     \<and> response_bodies (trace w') = response_bodies (trace w1)"
  then show "responses (trace w') = responses (trace w)
     \<and> status_codes (trace w') = status_codes (trace w)
     \<and> response_bodies (trace w') = response_bodies (trace w)"
    using iteration_silent [OF it] by simp
qed

lemma poll_failureDetails:
  "fst (poll env project s w) = Inr s' \<Longrightarrow> failureDetails s' = failureDetails s"
proof -
  have "\<forall>s'. fst (poll env project s w) = Inr s' \<longrightarrow> failureDetails s' = failureDetails s"
  proof (rule poll_rule [where P = "\<lambda>s w res w'. \<forall>s'. res = Inr s' \<longrightarrow> failureDetails s' = failureDetails s"])
    fix s :: loop_state
    show "\<forall>s'. Inr s = Inr s' \<longrightarrow> failureDetails s' = failureDetails s"
      by simp
  next
    fix s :: loop_state and e :: error
    show "\<forall>s'. Inl e = Inr s' \<longrightarrow> failureDetails s' = failureDetails s"
      by simp
  next
    fix s w s1 w1 and res :: "error + loop_state"
    assume "iteration env project s w = (Inr s1, w1)"
      and "\<forall>s'. res = Inr s' \<longrightarrow> failureDetails s' = failureDetails s1"
    then show "\<forall>s'. res = Inr s' \<longrightarrow> failureDetails s' = failureDetails s"
      using iteration_failureDetails by fastforce
  qed
  then show "fst (poll env project s w) = Inr s' \<Longrightarrow> failureDetails s' = failureDetails s"
    by simp
qed

lemma queries_idle_rounds: "queries (idle_rounds n pid tr) = queries tr + n"
  by (induction n arbitrary: tr) simp_all

lemma sleeps_idle_rounds: "sleeps (idle_rounds n pid tr) = sleeps tr + n"
  by (induction n arbitrary: tr) simp_all

lemma codes_idle_rounds: "status_codes (idle_rounds n pid tr) = status_codes tr"
  by (induction n arbitrary: tr) simp_all

lemma bodies_idle_rounds: "response_bodies (idle_rounds n pid tr) = response_bodies tr"
  by (induction n arbitrary: tr) simp_all

lemma iteration_unfinished:
  assumes pid: "id_field project = Some pid"
    and tok: "granted (token_reply env (token_requests (trace w)))"
    and reply: "unfinished (status_reply env pid (queries (trace w)))"
  shows "iteration env project s w =
     (Inr (s\<lparr>counter := counter s + 1\<rparr>),
      w\<lparr>trace := StatusQuery pid # TokenRequest # Sleep 3 # trace w\<rparr>)"
proof -
  have g: "granted (token_reply env (token_requests (trace (emit (Sleep 3) w))))"
    using tok by simp
  obtain t where t: "get_access_token env (emit (Sleep 3) w) =
      (Inr t, emit TokenRequest (emit (Sleep 3) w))"
    using get_access_token_granted [OF g] by blast
  obtain r where r: "status_reply env pid (queries (trace w)) = Inr r"
    and st: "status r \<noteq> None" "status r \<noteq> Some ''Completed''" "status r \<noteq> Some ''Failed''"
    using reply by (cases "status_reply env pid (queries (trace w))") auto
  obtain x where x: "status r = Some x"
    using st(1) by blast
  show ?thesis
    using pid t r x st(2,3)
    by (simp add: iteration_def check_project_results_def emit_def)
qed

lemma poll_unfinished:
  assumes pid: "id_field project = Some pid"
    and tok: "\<forall>n. granted (token_reply env n)"
  shows "isPending s \<Longrightarrow> counter s \<le> 20 \<Longrightarrow>
    \<forall>k. queries (trace w) \<le> k \<and> k < queries (trace w) + (20 - counter s)
        \<longrightarrow> unfinished (status_reply env pid k) \<Longrightarrow>
    poll env project s w =
      (Inr (s\<lparr>counter := 20\<rparr>), w\<lparr>trace := idle_rounds (20 - counter s) pid (trace w)\<rparr>)"
proof (induction "20 - counter s" arbitrary: s w)
  case 0
  then have "counter s = 20"
    by simp
  then show ?case
    by (simp add: poll_stop)
next
  case (Suc n)
  let ?s1 = "s\<lparr>counter := counter s + 1\<rparr>"
  let ?w1 = "w\<lparr>trace := StatusQuery pid # TokenRequest # Sleep 3 # trace w\<rparr>"
  have lt: "counter s < 20"
    using Suc.hyps(2) by simp
  have "unfinished (status_reply env pid (queries (trace w)))"
    using Suc.prems(3) lt by simp
  then have it: "iteration env project s w = (Inr ?s1, ?w1)"
    using pid tok by (intro iteration_unfinished) simp_all
  have eq: "poll env project s w = poll env project ?s1 ?w1"
    using Suc.prems(1) lt it by (subst poll.simps) simp
  have n: "n = 20 - counter ?s1"
    using Suc.hyps(2) by simp
  have later: "\<forall>k. queries (trace ?w1) \<le> k \<and> k < queries (trace ?w1) + (20 - counter ?s1)
        \<longrightarrow> unfinished (status_reply env pid k)"
  proof (intro allI impI)
    fix k
    assume "queries (trace ?w1) \<le> k \<and> k < queries (trace ?w1) + (20 - counter ?s1)"
    then have "queries (trace w) + 1 \<le> k" "k < queries (trace w) + 1 + (20 - (counter s + 1))"
      by simp_all
    then have "queries (trace w) \<le> k \<and> k < queries (trace w) + (20 - counter s)"
      using lt by arith
    then show "unfinished (status_reply env pid k)"
      using Suc.prems(3) by blast
  qed
  have "poll env project ?s1 ?w1 =
      (Inr (?s1\<lparr>counter := 20\<rparr>), ?w1\<lparr>trace := idle_rounds (20 - counter ?s1) pid (trace ?w1)\<rparr>)"
    using Suc.prems(1) lt later by (intro Suc.hyps(1) [OF n]) simp_all
  moreover have "20 - counter s = Suc (20 - counter ?s1)"
    using lt by simp
  ultimately show ?case
    using eq by simp
qed

lemma poll_finished:
  assumes pid: "id_field project = Some pid"
  shows "\<forall>k. queries (trace w) \<le> k \<and> k < queries (trace (snd (poll env project s w)))
        \<and> finished (status_reply env pid k)
      \<longrightarrow> queries (trace (snd (poll env project s w))) = k + 1
          \<and> slept_since_query (trace (snd (poll env project s w))) = 0"
proof (rule poll_rule [where P = "\<lambda>s w res w'.
      \<forall>k. queries (trace w) \<le> k \<and> k < queries (trace w') \<and> finished (status_reply env pid k)
      \<longrightarrow> queries (trace w') = k + 1 \<and> slept_since_query (trace w') = 0"])
  fix w :: world
  show "\<forall>k. queries (trace w) \<le> k \<and> k < queries (trace w) \<and> finished (status_reply env pid k)
      \<longrightarrow> queries (trace w) = k + 1 \<and> slept_since_query (trace w) = 0"
    by simp
next
  fix s w e w1
  assume it: "iteration env project s w = (Inl e, w1)"
  show "\<forall>k. queries (trace w) \<le> k \<and> k < queries (trace w1) \<and> finished (status_reply env pid k)
      \<longrightarrow> queries (trace w1) = k + 1 \<and> slept_since_query (trace w1) = 0"
    using iteration_trace [OF it]
    by (auto simp: quiet_queries quiet_slept)
next
  fix s w s1 w1 res and w' :: world
  assume it: "iteration env project s w = (Inr s1, w1)"
    and rest: "poll env project s1 w1 = (res, w')"
    and IH: "\<forall>k. queries (trace w1) \<le> k \<and> k < queries (trace w') \<and> finished (status_reply env pid k)
      \<longrightarrow> queries (trace w') = k + 1 \<and> slept_since_query (trace w') = 0"
  from iteration_Inr [OF it] pid
  obtain new r where tr: "trace w1 = new @ StatusQuery pid # TokenRequest # Sleep 3 # trace w"
    and q: "list_all quiet new"
    and r: "status_reply env pid (queries (trace w)) = Inr r"
    and cases: "(status r = Some ''Completed'' \<and> \<not> isPending s1)
       \<or> (status r \<noteq> Some ''Completed'' \<and> status r \<noteq> Some ''Failed'')"
    by auto
  have q1: "queries (trace w1) = queries (trace w) + 1"
    using tr q by (simp add: quiet_queries)
  have s1: "slept_since_query (trace w1) = 0"
    using tr q by (simp add: quiet_slept)
  show "\<forall>k. queries (trace w) \<le> k \<and> k < queries (trace w') \<and> finished (status_reply env pid k)
      \<longrightarrow> queries (trace w') = k + 1 \<and> slept_since_query (trace w') = 0"
  proof (intro allI impI)
    fix k
    assume k: "queries (trace w) \<le> k \<and> k < queries (trace w') \<and> finished (status_reply env pid k)"
    show "queries (trace w') = k + 1 \<and> slept_since_query (trace w') = 0"
    proof (cases "k = queries (trace w)")
      case True
      then have "\<not> isPending s1"
        using k r cases by auto
      then have "w' = w1"
        using rest by (simp add: poll_stop)
      then show ?thesis
        using True q1 s1 by simp
    next
      case False
      then have "queries (trace w1) \<le> k"
        using k q1 by simp
      then show ?thesis
        using IH k by blast
    qed
  qed
qed

text \<open>Every status query of the loop comes after a sleep of 3.\<close>

lemma poll_waits:
  "slept_since_query (trace w) = 0 \<and> waits_before_queries 3 (trace w) \<longrightarrow>
     waits_before_queries 3 (trace (snd (poll env project s w)))"
proof (rule poll_rule [where P = "\<lambda>s w res w'.
      slept_since_query (trace w) = 0 \<and> waits_before_queries 3 (trace w) \<longrightarrow>
      waits_before_queries 3 (trace w')"])
  fix w :: world
  show "slept_since_query (trace w) = 0 \<and> waits_before_queries 3 (trace w) \<longrightarrow>
      waits_before_queries 3 (trace w)"
    by simp
next
  fix s w e w1
  assume it: "iteration env project s w = (Inl e, w1)"
  show "slept_since_query (trace w) = 0 \<and> waits_before_queries 3 (trace w) \<longrightarrow>
      waits_before_queries 3 (trace w1)"
    using iteration_trace [OF it]
    by (auto simp: quiet_waits quiet_slept)
next
  fix s w s1 w1 res and w' :: world
  assume it: "iteration env project s w = (Inr s1, w1)"
    and IH: "slept_since_query (trace w1) = 0 \<and> waits_before_queries 3 (trace w1) \<longrightarrow>
      waits_before_queries 3 (trace w')"
  from iteration_Inr [OF it]
  obtain new pid where tr: "trace w1 = new @ StatusQuery pid # TokenRequest # Sleep 3 # trace w"
    and q: "list_all quiet new"
    by auto
  show "slept_since_query (trace w) = 0 \<and> waits_before_queries 3 (trace w) \<longrightarrow>
      waits_before_queries 3 (trace w')"
    using IH tr q by (simp add: quiet_waits quiet_slept)
qed

lemma waits_first_query:
  "waits_before_queries d tr \<Longrightarrow> wait_before_first_query tr = None \<or> wait_before_first_query tr = Some d"
  by (induction tr rule: wait_before_first_query.induct) (auto split: option.splits)

subsection \<open>The handler\<close>

lemma do_POST_cases:
  assumes "do_POST env body w = (res, w')"
  obtains (no_key) "isl res" "w' = w"
  | (create) sid "uid" e where "stateId body = Some sid" "userId body = Some uid"
      "create_project env sid uid ''Pdf'' ''Cmyk'' 300 w = (Inl e, w')" "res = Inl e"
  | (poll) sid "uid" project w1 e where "stateId body = Some sid" "userId body = Some uid"
      "create_project env sid uid ''Pdf'' ''Cmyk'' 300 w = (Inr project, w1)"
      "poll env project initial_state w1 = (Inl e, w')" "res = Inl e"
  | (respond) sid "uid" project w1 s w2 where "stateId body = Some sid" "userId body = Some uid"
      "create_project env sid uid ''Pdf'' ''Cmyk'' 300 w = (Inr project, w1)"
      "poll env project initial_state w1 = (Inr s, w2)" "res = Inr ()" "w' = respond s w2"
  using assms
  by (auto simp: do_POST_def split: option.splits prod.splits sum.splits)

lemma create_project_readings:
  assumes "create_project env sid uid fmt cs res w = (r, w1)"
  shows "queries (trace w1) = queries (trace w)" "sleeps (trace w1) = sleeps (trace w)"
    "responses (trace w1) = responses (trace w)" "status_codes (trace w1) = status_codes (trace w)"
    "response_bodies (trace w1) = response_bodies (trace w)"
    "slept_since_query (trace w1) = slept_since_query (trace w)"
    "waits_before_queries d (trace w1) = waits_before_queries d (trace w)"
  using create_project_quiet [of env sid uid fmt cs res w] assms
  by (auto simp: quiet_queries quiet_sleeps quiet_responses quiet_codes quiet_bodies quiet_slept
      quiet_waits)

lemma respond_readings:
  "queries (trace (respond s w)) = queries (trace w)"
  "sleeps (trace (respond s w)) = sleeps (trace w)"
  "waits_before_queries d (trace (respond s w)) = waits_before_queries d (trace w)"
  "status_codes (trace (respond s w)) = 200 # status_codes (trace w)"
  "responses (trace (respond s w)) =
     WfileWrite (if isSuccess s then ''Successfully saved a file.''
                 else ''Failed to render a file.'' @ failureDetails s)
       # EndHeaders # SendHeader ''Content-type'' ''text/html'' # SendResponse 200
       # responses (trace w)"
  "response_bodies (trace (respond s w)) =
     (if isSuccess s then ''Successfully saved a file.''
      else ''Failed to render a file.'' @ failureDetails s) # response_bodies (trace w)"
  by (simp_all add: respond_def)

text \<open>
  A pass that finds the project completed and downloads every output file.
\<close>

lemma iteration_completed:
  assumes pid: "id_field project = Some pid"
    and tok: "\<forall>n. granted (token_reply env n)"
    and reply: "status_reply env pid (queries (trace w)) = Inr r"
    and st: "status r = Some ''Completed''"
    and ds: "outputFileDetails r = Some ds"
    and ff: "\<forall>d\<in>set ds. fault_free env d"
  shows "\<exists>new. iteration env project s w =
       (Inr (s\<lparr>isPending := False, isSuccess := True, counter := counter s + 1\<rparr>),
        w\<lparr>trace := new @ StatusQuery pid # TokenRequest # Sleep 3 # trace w,
          files := saved env (files w) ds\<rparr>)
     \<and> list_all is_download new
     \<and> opened_files new = rev (map local_name ds)"
proof -
  have g: "granted (token_reply env (token_requests (trace (emit (Sleep 3) w))))"
    using tok by simp
  obtain t where t: "get_access_token env (emit (Sleep 3) w) =
      (Inr t, emit TokenRequest (emit (Sleep 3) w))"
    using get_access_token_granted [OF g] by blast
  let ?w2 = "emit (StatusQuery pid) (emit TokenRequest (emit (Sleep 3) w))"
  have chk: "check_project_results env pid (emit (Sleep 3) w) = (Inr r, ?w2)"
    using t reply by (simp add: check_project_results_def)
  from download_all_ok [OF tok ff, of ?w2]
  obtain new where dl: "download_all env ds ?w2 =
        (Inr (), ?w2\<lparr>trace := new @ trace ?w2, files := saved env (files ?w2) ds\<rparr>)"
    and new: "list_all is_download new" "opened_files new = rev (map local_name ds)"
    by blast
  have "iteration env project s w =
       (Inr (s\<lparr>isPending := False, isSuccess := True, counter := counter s + 1\<rparr>),
        w\<lparr>trace := new @ StatusQuery pid # TokenRequest # Sleep 3 # trace w,
          files := saved env (files w) ds\<rparr>)"
    using pid chk st ds dl by (simp add: iteration_def emit_def)
  then show ?thesis
    using new by blast
qed

section \<open>The claims\<close>

subsection \<open>C1: a failed remote job\<close>

text \<open>
  Claim C1. When the remote status becomes \<open>Failed\<close> on query \<open>k\<close>, polling stops at
  query \<open>k\<close> and the handler produces a failure whose reason is the remote failure
  description. The run below is the one of the specification: the first query answers
  \<open>Pending\<close>, the second \<open>Failed\<close> with the description \<open>render error\<close>. Polling does
  stop after the second query, but the handler ends with \<open>AttributeError\<close>, raised by
  \<open>project_results.statusDescription\<close> on a dictionary, and sends nothing to the browser:
  the description never reaches \<open>failureDetails\<close>.
\<close>

theorem failed_status_raises:
  "fst (do_POST (service scenario_D) request fresh) = Inl (AttributeError ''statusDescription'')
   \<and> queries (trace (snd (do_POST (service scenario_D) request fresh))) = 2
   \<and> responses (trace (snd (do_POST (service scenario_D) request fresh))) = []"
  by (simp add: run_simps scenario_D_def)

subsection \<open>C2: the wait before a status check\<close>

text \<open>
  Claim C2 says that the delay of 3 is waited before each status check except the very
  first. In the run below the project is completed at the first query; the handler has
  slept 3 before that query, not 0.
\<close>

theorem first_query_waits:
  "wait_before_first_query (trace (snd (do_POST (service scenario_A) request fresh))) = Some 3
   \<and> wait_before_first_query (trace (snd (do_POST (service scenario_A) request fresh))) \<noteq> Some 0"
  by (simp add: run_simps scenario_A_def)

text \<open>
  Claim C2, as the code has it: in every run of the handler the delay of 3 is waited
  before each status check, the very first included. Between the start of the run and
  the first status query, and between one status query and the next, the handler sleeps
  3, once.
\<close>

theorem every_query_waits:
  assumes "trace w = []"
  shows "waits_before_queries 3 (trace (snd (do_POST env body w)))
    \<and> (wait_before_first_query (trace (snd (do_POST env body w))) = None
       \<or> wait_before_first_query (trace (snd (do_POST env body w))) = Some 3)"
proof -
  obtain res w' where run: "do_POST env body w = (res, w')"
    by fastforce
  have start: "slept_since_query (trace w) = 0" "waits_before_queries 3 (trace w)"
    using assms by simp_all
  have "waits_before_queries 3 (trace w')"
    using run
  proof (cases rule: do_POST_cases)
    case no_key
    then show ?thesis using start by simp
  next
    case (create sid uid e)
    then show ?thesis
      using start create_project_readings(7) by fastforce
  next
    case (poll sid uid project w1 e)
    then show ?thesis
      using start create_project_readings(6,7) [OF poll(3)] poll_waits [of w1 env project initial_state]
      by simp
  next
    case (respond sid uid project w1 s w2)
    then show ?thesis
      using start create_project_readings(6,7) [OF respond(3)]
        poll_waits [of w1 env project initial_state]
      by (simp add: respond_readings)
  qed
  then show ?thesis
    using run waits_first_query [of 3 "trace w'"] by simp
qed

text \<open>
  The run in which the project stays pending: 20 queries, each after a sleep of 3.
\<close>

theorem every_query_waits_witness:
  "trace fresh = []
   \<and> waits_before_queries 3 (trace (snd (do_POST (service scenario_B) request fresh)))
   \<and> queries (trace (snd (do_POST (service scenario_B) request fresh))) = 20
   \<and> wait_before_first_query (trace (snd (do_POST (service scenario_B) request fresh))) = Some 3"
proof -
  have h: "trace fresh = []"
    by (simp add: fresh_def)
  have "queries (trace (snd (do_POST (service scenario_B) request fresh))) = 20"
    "wait_before_first_query (trace (snd (do_POST (service scenario_B) request fresh))) = Some 3"
    by (simp_all add: run_simps scenario_B_def)
  then show ?thesis
    using h every_query_waits [OF h, of "service scenario_B" request] by simp
qed

subsection \<open>C3: the attempt budget runs out\<close>

text \<open>
  Claim C3 says that a run whose attempt budget runs out ends in a failure whose reason
  identifies a timeout. In the run below the status is \<open>Pending\<close> at all 20 queries. The
  loop ends with \<open>failureDetails\<close> as it was initialised, the empty string, and the body
  sent is \<open>Failed to render a file.\<close> with nothing after it: the reason names no
  timeout.
\<close>

theorem timeout_reason_empty:
  "fst (do_POST (service scenario_B) request fresh) = Inr ()
   \<and> queries (trace (snd (do_POST (service scenario_B) request fresh))) = 20
   \<and> response_bodies (trace (snd (do_POST (service scenario_B) request fresh)))
       = [''Failed to render a file.'']
   \<and> fst (poll (service scenario_B) \<lparr>id_field = Some ''p1''\<rparr> initial_state fresh)
       = Inr (initial_state\<lparr>counter := 20\<rparr>)
   \<and> failureDetails (initial_state\<lparr>counter := 20\<rparr>) = []"
  by (simp add: run_simps scenario_B_def)

text \<open>
  Claim C3, as the code has it: when the project is created and the first 20 status
  queries each find it neither completed nor failed, the handler issues exactly 20
  queries, sleeps 20 times, and answers with status 200 and the body
  \<open>Failed to render a file.\<close>, followed by empty failure details.
\<close>

theorem timeout_response:
  assumes keys: "stateId body = Some sid" "userId body = Some uid"
    and tok: "\<forall>n. granted (token_reply env n)"
    and created: "fst (create_project env sid uid ''Pdf'' ''Cmyk'' 300 w) = Inr project"
    and pid: "id_field project = Some pid"
    and pending: "\<forall>k. queries (trace w) \<le> k \<and> k < queries (trace w) + 20
        \<longrightarrow> unfinished (status_reply env pid k)"
  shows "fst (do_POST env body w) = Inr ()
    \<and> queries (trace (snd (do_POST env body w))) = queries (trace w) + 20
    \<and> sleeps (trace (snd (do_POST env body w))) = sleeps (trace w) + 20
    \<and> status_codes (trace (snd (do_POST env body w))) = 200 # status_codes (trace w)
    \<and> response_bodies (trace (snd (do_POST env body w)))
        = ''Failed to render a file.'' # response_bodies (trace w)"
proof -
  obtain w1 where cp: "create_project env sid uid ''Pdf'' ''Cmyk'' 300 w = (Inr project, w1)"
    using created by (cases "create_project env sid uid ''Pdf'' ''Cmyk'' 300 w") simp
  note rd = create_project_readings [OF cp]
  have pending1: "\<forall>k. queries (trace w1) \<le> k
        \<and> k < queries (trace w1) + (20 - counter initial_state)
        \<longrightarrow> unfinished (status_reply env pid k)"
    using pending rd(1) by (simp add: initial_state_def)
  have "poll env project initial_state w1 =
      (Inr (initial_state\<lparr>counter := 20\<rparr>),
       w1\<lparr>trace := idle_rounds (20 - counter initial_state) pid (trace w1)\<rparr>)"
    using pending1 by (intro poll_unfinished [OF pid tok]) (simp_all add: initial_state_def)
  then have run: "do_POST env body w =
      (Inr (), respond (initial_state\<lparr>counter := 20\<rparr>) (w1\<lparr>trace := idle_rounds 20 pid (trace w1)\<rparr>))"
    using keys cp by (simp add: do_POST_def initial_state_def)
  show ?thesis
    using rd(1,2,4,5)
    by (simp add: run respond_readings queries_idle_rounds sleeps_idle_rounds codes_idle_rounds
        bodies_idle_rounds initial_state_def)
qed

text \<open>
  The run in which the project stays pending meets the hypotheses.
\<close>

theorem timeout_response_witness:
  "stateId request = Some ''s1'' \<and> userId request = Some ''user1''
   \<and> fst (do_POST (service scenario_B) request fresh) = Inr ()
   \<and> queries (trace (snd (do_POST (service scenario_B) request fresh))) = 20
   \<and> status_codes (trace (snd (do_POST (service scenario_B) request fresh))) = [200]
   \<and> response_bodies (trace (snd (do_POST (service scenario_B) request fresh)))
        = [''Failed to render a file.'']"
proof -
  have keys: "stateId request = Some ''s1''" "userId request = Some ''user1''"
    by (simp_all add: request_def)
  have tok: "\<forall>n. granted (token_reply (service scenario_B) n)"
    by (simp add: service_def granting_def)
  have created: "fst (create_project (service scenario_B) ''s1'' ''user1'' ''Pdf'' ''Cmyk'' 300 fresh)
      = Inr \<lparr>id_field = Some ''p1''\<rparr>"
    by (simp add: create_project_def get_access_token_def service_def granting_def)
  have pid: "id_field \<lparr>id_field = Some ''p1''\<rparr> = Some ''p1''"
    by simp
  have pending: "\<forall>k. queries (trace fresh) \<le> k \<and> k < queries (trace fresh) + 20
        \<longrightarrow> unfinished (status_reply (service scenario_B) ''p1'' k)"
    by (simp add: service_def scenario_B_def results_with_def)
  show ?thesis
    using keys timeout_response [OF keys tok created pid pending]
    by (simp add: fresh_def)
qed

subsection \<open>C4: the submission fails\<close>

text \<open>
  Claim C4 says that a failed submission makes the handler return a failure outcome
  whose reason is the submission error. In the run below the identity server rejects
  the client, so \<open>get_access_token\<close> raises \<open>KeyError\<close> inside \<open>create_project\<close>. No
  status query is issued, but the handler does not return an outcome: the exception
  leaves \<open>do_POST\<close> and nothing is sent to the browser.
\<close>

theorem submission_failure_raises:
  "fst (do_POST rejecting request fresh) = Inl (KeyError ''access_token'')
   \<and> queries (trace (snd (do_POST rejecting request fresh))) = 0
   \<and> responses (trace (snd (do_POST rejecting request fresh))) = []"
  by (simp add: run_simps rejecting_def)

text \<open>
  Claim C4, as the code has it: when \<open>create_project\<close> raises, \<open>do_POST\<close> raises the
  same error; it issues no status query, does not sleep and sends nothing to the
  browser.
\<close>

theorem submission_failure_propagates:
  assumes keys: "stateId body = Some sid" "userId body = Some uid"
    and failed: "fst (create_project env sid uid ''Pdf'' ''Cmyk'' 300 w) = Inl e"
  shows "fst (do_POST env body w) = Inl e
    \<and> queries (trace (snd (do_POST env body w))) = queries (trace w)
    \<and> sleeps (trace (snd (do_POST env body w))) = sleeps (trace w)
    \<and> responses (trace (snd (do_POST env body w))) = responses (trace w)"
proof -
  obtain w1 where cp: "create_project env sid uid ''Pdf'' ''Cmyk'' 300 w = (Inl e, w1)"
    using failed by (cases "create_project env sid uid ''Pdf'' ''Cmyk'' 300 w") simp
  have "do_POST env body w = (Inl e, w1)"
    using keys cp by (simp add: do_POST_def)
  then show ?thesis
    using create_project_readings(1,2,3) [OF cp] by simp
qed

text \<open>
  The run with the rejected client meets the hypotheses.
\<close>

theorem submission_failure_propagates_witness:
  "stateId request = Some ''s1'' \<and> userId request = Some ''user1''
   \<and> fst (create_project rejecting ''s1'' ''user1'' ''Pdf'' ''Cmyk'' 300 fresh)
       = Inl (KeyError ''access_token'')
   \<and> fst (do_POST rejecting request fresh) = Inl (KeyError ''access_token'')
   \<and> queries (trace (snd (do_POST rejecting request fresh))) = 0
   \<and> responses (trace (snd (do_POST rejecting request fresh))) = []"
proof -
  have keys: "stateId request = Some ''s1''" "userId request = Some ''user1''"
    by (simp_all add: request_def)
  have failed: "fst (create_project rejecting ''s1'' ''user1'' ''Pdf'' ''Cmyk'' 300 fresh)
       = Inl (KeyError ''access_token'')"
    by (simp add: create_project_def get_access_token_def rejecting_def service_def)
  show ?thesis
    using keys failed submission_failure_propagates [OF keys failed]
    by (simp add: fresh_def)
qed

subsection \<open>C5: the attempt cap\<close>

text \<open>
  Claim C5. A polling run issues at most 20 status queries and terminates. \<open>poll\<close> and
  \<open>read_write_loop\<close> are total functions: the loop counter rises by one with every pass
  that ends normally, and the copy loop consumes a non-empty chunk with every pass. For
  every environment, the loop and the whole handler add at most 20 status queries to the
  log, and the loop sleeps at most 20 times.
\<close>

theorem polling_bounded:
  "queries (trace (snd (poll env project initial_state w))) \<le> queries (trace w) + 20
   \<and> sleeps (trace (snd (poll env project initial_state w))) \<le> sleeps (trace w) + 20
   \<and> queries (trace (snd (do_POST env body w))) \<le> queries (trace w) + 20"
proof (intro conjI)
  show "queries (trace (snd (poll env project initial_state w))) \<le> queries (trace w) + 20"
    using poll_queries [of env project initial_state w] by (simp add: initial_state_def)
  show "sleeps (trace (snd (poll env project initial_state w))) \<le> sleeps (trace w) + 20"
    using poll_sleeps [of env project initial_state w] by (simp add: initial_state_def)
  obtain res w' where run: "do_POST env body w = (res, w')"
    by fastforce
  have "queries (trace w') \<le> queries (trace w) + 20"
    using run
  proof (cases rule: do_POST_cases)
    case no_key
    then show ?thesis by simp
  next
    case (create sid uid e)
    then show ?thesis
      using create_project_readings(1) by fastforce
  next
    case (poll sid uid project w1 e)
    then show ?thesis
      using create_project_readings(1) [OF poll(3)] poll_queries [of env project initial_state w1]
      by (simp add: initial_state_def)
  next
    case (respond sid uid project w1 s w2)
    then show ?thesis
      using create_project_readings(1) [OF respond(3)] poll_queries [of env project initial_state w1]
      by (simp add: initial_state_def respond_readings)
  qed
  then show "queries (trace (snd (do_POST env body w))) \<le> queries (trace w) + 20"
    using run by simp
qed

text \<open>
  The bound is reached when the project stays pending.
\<close>

theorem polling_bounded_witness:
  "queries (trace (snd (poll (service scenario_B) \<lparr>id_field = Some ''p1''\<rparr> initial_state fresh))) \<le> 20
   \<and> sleeps (trace (snd (poll (service scenario_B) \<lparr>id_field = Some ''p1''\<rparr> initial_state fresh))) \<le> 20
   \<and> queries (trace (snd (do_POST (service scenario_B) request fresh))) \<le> 20"
  using polling_bounded [of "service scenario_B" "\<lparr>id_field = Some ''p1''\<rparr>" fresh request]
  by (simp add: fresh_def)

subsection \<open>C6: no query after a terminal status\<close>

text \<open>
  Claim C6. Once a status query of a polling run has been answered \<open>Completed\<close> or
  \<open>Failed\<close>, the run issues no further status query: if query number \<open>k\<close> was issued
  by the run and its reply is terminal, the run has issued \<open>k + 1\<close> queries in all (the
  queries are numbered from 0), and it has not slept after that query. After
  \<open>Completed\<close> the run downloads the output files and leaves the loop; after \<open>Failed\<close>
  it ends with the exception of claim C1.
\<close>

theorem terminal_status_ends_polling:
  assumes "id_field project = Some pid"
    and "queries (trace w) \<le> k"
    and "k < queries (trace (snd (poll env project s w)))"
    and "finished (status_reply env pid k)"
  shows "queries (trace (snd (poll env project s w))) = k + 1
    \<and> slept_since_query (trace (snd (poll env project s w))) = 0"
  using poll_finished [OF assms(1), of w env s] assms(2,3,4) by blast

text \<open>
  Pending, in progress, completed: the third query (number 2) is the last one.
\<close>

theorem terminal_status_ends_polling_witness:
  "id_field \<lparr>id_field = Some ''p1''\<rparr> = Some ''p1''
   \<and> queries (trace fresh) \<le> 2
   \<and> 2 < queries (trace (snd (poll (service (scenario_three [])) \<lparr>id_field = Some ''p1''\<rparr>
             initial_state fresh)))
   \<and> finished (status_reply (service (scenario_three [])) ''p1'' 2)
   \<and> queries (trace (snd (poll (service (scenario_three [])) \<lparr>id_field = Some ''p1''\<rparr>
             initial_state fresh))) = 3"
proof -
  have a: "id_field \<lparr>id_field = Some ''p1''\<rparr> = Some ''p1''"
    by simp
  have b: "queries (trace fresh) \<le> 2"
    by (simp add: fresh_def)
  have c: "2 < queries (trace (snd (poll (service (scenario_three [])) \<lparr>id_field = Some ''p1''\<rparr>
             initial_state fresh)))"
    by (simp add: run_simps scenario_three_def)
  have d: "finished (status_reply (service (scenario_three [])) ''p1'' 2)"
    by (simp add: service_def scenario_three_def results_with_def)
  show ?thesis
    using a b c d terminal_status_ends_polling [OF a b c d] by simp
qed

subsection \<open>C7: pending, in progress, completed\<close>

text \<open>
  Claim C7. If the remote status sequence is \<open>Pending\<close>, \<open>InProgress\<close>, \<open>Completed\<close>
  (and the output files of the completed project download without a fault), the loop
  ends with \<open>isSuccess\<close> set after exactly 3 status queries.
\<close>

theorem three_queries_to_completion:
  assumes pid: "id_field project = Some pid"
    and tok: "\<forall>n. granted (token_reply env n)"
    and r0: "status_reply env pid (queries (trace w)) = Inr r0" "status r0 = Some ''Pending''"
    and r1: "status_reply env pid (queries (trace w) + 1) = Inr r1" "status r1 = Some ''InProgress''"
    and r2: "status_reply env pid (queries (trace w) + 2) = Inr r2" "status r2 = Some ''Completed''"
      "outputFileDetails r2 = Some ds"
    and ff: "\<forall>d\<in>set ds. fault_free env d"
  shows "fst (poll env project initial_state w) =
      Inr (initial_state\<lparr>isPending := False, isSuccess := True, counter := 3\<rparr>)
    \<and> queries (trace (snd (poll env project initial_state w))) = queries (trace w) + 3"
proof -
  let ?s1 = "initial_state\<lparr>counter := 1\<rparr>"
  let ?w1 = "w\<lparr>trace := StatusQuery pid # TokenRequest # Sleep 3 # trace w\<rparr>"
  let ?s2 = "initial_state\<lparr>counter := 2\<rparr>"
  let ?w2 = "?w1\<lparr>trace := StatusQuery pid # TokenRequest # Sleep 3 # trace ?w1\<rparr>"
  let ?s3 = "initial_state\<lparr>isPending := False, isSuccess := True, counter := 3\<rparr>"
  have i1: "iteration env project initial_state w = (Inr ?s1, ?w1)"
    using iteration_unfinished [OF pid, of env w initial_state] tok r0
    by (simp add: initial_state_def)
  have i2: "iteration env project ?s1 ?w1 = (Inr ?s2, ?w2)"
    using iteration_unfinished [OF pid, of env ?w1 ?s1] tok r1
    by (simp add: initial_state_def)
  have q2: "queries (trace ?w2) = queries (trace w) + 2"
    by simp
  from iteration_completed [OF pid tok _ r2(2) r2(3) ff, of ?w2 ?s2] r2(1) q2
  obtain new where i3: "iteration env project ?s2 ?w2 =
       (Inr ?s3, ?w2\<lparr>trace := new @ StatusQuery pid # TokenRequest # Sleep 3 # trace ?w2,
          files := saved env (files ?w2) ds\<rparr>)"
    and new: "list_all is_download new"
    by (auto simp: initial_state_def)
  let ?w3 = "?w2\<lparr>trace := new @ StatusQuery pid # TokenRequest # Sleep 3 # trace ?w2,
          files := saved env (files ?w2) ds\<rparr>"
  have p3: "poll env project ?s3 ?w3 = (Inr ?s3, ?w3)"
    by (simp add: poll_stop)
  have p2: "poll env project ?s2 ?w2 = (Inr ?s3, ?w3)"
    using i3 p3 by (subst poll.simps) (simp add: initial_state_def)
  have p1: "poll env project ?s1 ?w1 = (Inr ?s3, ?w3)"
    using i2 p2 by (subst poll.simps) (simp add: initial_state_def)
  have p0: "poll env project initial_state w = (Inr ?s3, ?w3)"
    using i1 p1 by (subst poll.simps) (simp add: initial_state_def)
  have "queries (trace ?w3) = queries (trace w) + 3"
    using new by (simp add: quiet_queries list_all_download_quiet)
  then show ?thesis
    using p0 by simp
qed

text \<open>
  The run with one output file meets the hypotheses.
\<close>

theorem three_queries_to_completion_witness:
  "id_field \<lparr>id_field = Some ''p1''\<rparr> = Some ''p1''
   \<and> status (scenario_three [detail ''u1'' ''a''] 0) = Some ''Pending''
   \<and> status (scenario_three [detail ''u1'' ''a''] 1) = Some ''InProgress''
   \<and> status (scenario_three [detail ''u1'' ''a''] 2) = Some ''Completed''
   \<and> fault_free (store (scenario_three [detail ''u1'' ''a''])) (detail ''u1'' ''a'')
   \<and> fst (poll (store (scenario_three [detail ''u1'' ''a''])) \<lparr>id_field = Some ''p1''\<rparr>
          initial_state fresh)
      = Inr (initial_state\<lparr>isPending := False, isSuccess := True, counter := 3\<rparr>)
   \<and> queries (trace (snd (poll (store (scenario_three [detail ''u1'' ''a'']))
          \<lparr>id_field = Some ''p1''\<rparr> initial_state fresh))) = 3"
proof -
  let ?ds = "[detail ''u1'' ''a'']"
  let ?env = "store (scenario_three ?ds)"
  have pid: "id_field \<lparr>id_field = Some ''p1''\<rparr> = Some ''p1''"
    by simp
  have tok: "\<forall>n. granted (token_reply ?env n)"
    by (simp add: store_def service_def granting_def)
  have r0: "status_reply ?env ''p1'' (queries (trace fresh)) = Inr (scenario_three ?ds 0)"
      "status (scenario_three ?ds 0) = Some ''Pending''"
    by (simp_all add: store_def service_def fresh_def scenario_three_def results_with_def)
  have r1: "status_reply ?env ''p1'' (queries (trace fresh) + 1) = Inr (scenario_three ?ds 1)"
      "status (scenario_three ?ds 1) = Some ''InProgress''"
    by (simp_all add: store_def service_def fresh_def scenario_three_def results_with_def)
  have r2: "status_reply ?env ''p1'' (queries (trace fresh) + 2) = Inr (scenario_three ?ds 2)"
      "status (scenario_three ?ds 2) = Some ''Completed''"
      "outputFileDetails (scenario_three ?ds 2) = Some ?ds"
    by (simp_all add: store_def service_def fresh_def scenario_three_def results_with_def)
  have ff1: "fault_free ?env (detail ''u1'' ''a'')"
    by (simp add: fault_free_def detail_def store_def service_def)
  then have ff: "\<forall>d\<in>set ?ds. fault_free ?env d"
    by simp
  show ?thesis
    using pid r0(2) r1(2) r2(2) ff1
      three_queries_to_completion [OF pid tok r0 r1 r2 ff]
    by (simp add: fresh_def)
qed

subsection \<open>C8: fetching the output files\<close>

text \<open>
  Claim C8 says that for every sequence of \<open>N\<close> descriptors \<open>N\<close> local files are
  written, whose bytes add up to the remote content lengths. Below, two descriptors
  have the name \<open>a\<close>; the remote bodies have 2 bytes and 1 byte. Both downloads succeed,
  and the disk holds one file, \<open>a.pdf\<close>, of one byte: the second download has
  overwritten the first.
\<close>

theorem same_name_overwrites:
  "fst (download_all (store scenario_B) [detail ''u1'' ''a'', detail ''u2'' ''a''] fresh) = Inr ()
   \<and> dom (files (snd (download_all (store scenario_B)
           [detail ''u1'' ''a'', detail ''u2'' ''a''] fresh))) = {''a.pdf''}
   \<and> files (snd (download_all (store scenario_B)
           [detail ''u1'' ''a'', detail ''u2'' ''a''] fresh)) ''a.pdf'' = Some [3]
   \<and> length (remote_content (store scenario_B) (detail ''u1'' ''a''))
       + length (remote_content (store scenario_B) (detail ''u2'' ''a'')) = 3"
  by (simp add: download_simps remote_content_def)

text \<open>
  Claim C8, as the code has it: for every sequence of \<open>N\<close> descriptors with pairwise
  distinct names that download without a fault, the downloads end normally; every
  descriptor's file \<open>name.pdf\<close> holds exactly the bytes of its remote body; no other file
  changes; the \<open>N\<close> files are opened in the order of the descriptors; every chunk
  written is non-empty and has at most \<open>1024 * 1024\<close> bytes; the chunks written, in
  order, are the remote bodies, so the bytes written add up to the remote content
  lengths. (\<open>r.read(chunk_size)\<close> is taken to return the next \<open>chunk_size\<close> bytes of
  the body, or the rest when that is shorter.)
\<close>

theorem fetch_writes_every_file:
  assumes tok: "\<forall>n. granted (token_reply env n)"
    and ff: "\<forall>d\<in>set ds. fault_free env d"
    and names: "distinct (map local_name ds)"
  shows "fst (download_all env ds w) = Inr ()
    \<and> (\<forall>d\<in>set ds. files (snd (download_all env ds w)) (local_name d) = Some (remote_content env d))
    \<and> (\<forall>f. f \<notin> local_name ` set ds \<longrightarrow> files (snd (download_all env ds w)) f = files w f)
    \<and> dom (files (snd (download_all env ds w))) = dom (files w) \<union> local_name ` set ds
    \<and> card (local_name ` set ds) = length ds
    \<and> (\<exists>new. trace (snd (download_all env ds w)) = new @ trace w
          \<and> opened_files new = rev (map local_name ds)
          \<and> (\<forall>c\<in>set (written_chunks new). 0 < length c \<and> length c \<le> 1024 * 1024)
          \<and> concat (rev (written_chunks new)) = concat (map (remote_content env) ds)
          \<and> sum_list (map length (written_chunks new))
              = sum_list (map (\<lambda>d. length (remote_content env d)) ds))"
proof -
  from download_all_ok [OF tok ff, of w]
  obtain new where run: "download_all env ds w =
        (Inr (), w\<lparr>trace := new @ trace w, files := saved env (files w) ds\<rparr>)"
    and op: "opened_files new = rev (map local_name ds)"
    and bound: "\<forall>c\<in>set (written_chunks new). 0 < length c \<and> length c \<le> chunk_size"
    and cat: "concat (rev (written_chunks new)) = concat (map (remote_content env) ds)"
    by blast
  have "length (concat (rev (written_chunks new))) = length (concat (map (remote_content env) ds))"
    using cat by simp
  then have total: "sum_list (map length (written_chunks new))
      = sum_list (map (\<lambda>d. length (remote_content env d)) ds)"
    by (simp add: length_concat rev_map [symmetric] comp_def)
  have count: "card (local_name ` set ds) = length ds"
    using names by (metis distinct_card length_map set_map)
  have tr: "\<exists>new. trace (snd (download_all env ds w)) = new @ trace w
          \<and> opened_files new = rev (map local_name ds)
          \<and> (\<forall>c\<in>set (written_chunks new). 0 < length c \<and> length c \<le> 1024 * 1024)
          \<and> concat (rev (written_chunks new)) = concat (map (remote_content env) ds)
          \<and> sum_list (map length (written_chunks new))
              = sum_list (map (\<lambda>d. length (remote_content env d)) ds)"
    using run op bound cat total
    by (intro exI [of _ new]) (simp add: chunk_size_def)
  show ?thesis
    using tr count
    by (simp add: run saved_distinct [OF names] saved_other dom_saved)
qed

text \<open>
  Two descriptors with the names \<open>a\<close> and \<open>b\<close>.
\<close>

theorem fetch_writes_every_file_witness:
  "fault_free (store scenario_B) (detail ''u1'' ''a'')
   \<and> fault_free (store scenario_B) (detail ''u2'' ''b'')
   \<and> distinct (map local_name [detail ''u1'' ''a'', detail ''u2'' ''b''])
   \<and> fst (download_all (store scenario_B) [detail ''u1'' ''a'', detail ''u2'' ''b''] fresh) = Inr ()
   \<and> files (snd (download_all (store scenario_B) [detail ''u1'' ''a'', detail ''u2'' ''b''] fresh))
        ''a.pdf'' = Some [1, 2]
   \<and> files (snd (download_all (store scenario_B) [detail ''u1'' ''a'', detail ''u2'' ''b''] fresh))
        ''b.pdf'' = Some [3]
   \<and> dom (files (snd (download_all (store scenario_B) [detail ''u1'' ''a'', detail ''u2'' ''b'']
        fresh))) = {''a.pdf'', ''b.pdf''}"
proof -
  let ?ds = "[detail ''u1'' ''a'', detail ''u2'' ''b'']"
  let ?env = "store scenario_B"
  have tok: "\<forall>n. granted (token_reply ?env n)"
    by (simp add: store_def service_def granting_def)
  have ff1: "fault_free ?env (detail ''u1'' ''a'')" "fault_free ?env (detail ''u2'' ''b'')"
    by (simp_all add: fault_free_def detail_def store_def service_def)
  then have ff: "\<forall>d\<in>set ?ds. fault_free ?env d"
    by simp
  have names: "distinct (map local_name ?ds)"
    by (simp add: local_name_def detail_def)
  have ln: "local_name (detail ''u1'' ''a'') = ''a.pdf''" "local_name (detail ''u2'' ''b'') = ''b.pdf''"
    by (simp_all add: local_name_def detail_def)
  have rc: "remote_content ?env (detail ''u1'' ''a'') = [1, 2]"
      "remote_content ?env (detail ''u2'' ''b'') = [3]"
    by (simp_all add: remote_content_def detail_def store_def service_def)
  from fetch_writes_every_file [OF tok ff names, of fresh]
  have "fst (download_all ?env ?ds fresh) = Inr ()"
    and "files (snd (download_all ?env ?ds fresh)) ''a.pdf'' = Some [1, 2]"
    and "files (snd (download_all ?env ?ds fresh)) ''b.pdf'' = Some [3]"
    and "dom (files (snd (download_all ?env ?ds fresh))) = {''a.pdf'', ''b.pdf''}"
    using ln rc by (auto simp: fresh_def)
  then show ?thesis
    using ff1 names by simp
qed

subsection \<open>C9: releasing the connection\<close>




subsection \<open>C10: the HTTP answer\<close>

text \<open>
  Claim C10. Whenever the handler produces an outcome, the HTTP status sent is 200, for
  success and for failure alike; the two answers have the same header and differ in the
  body only, \<open>Successfully saved a file.\<close> against \<open>Failed to render a file.\<close> followed
  by the failure details. The first part is the answer \<open>respond\<close> writes for any final
  state of the loop, the second the answer of every run of \<open>do_POST\<close> that ends
  normally.
\<close>

theorem response_always_200:
  "responses (trace (respond s w)) =
      WfileWrite (if isSuccess s then ''Successfully saved a file.''
                  else ''Failed to render a file.'' @ failureDetails s)
        # EndHeaders # SendHeader ''Content-type'' ''text/html'' # SendResponse 200
        # responses (trace w)
   \<and> (fst (do_POST env body w) = Inr () \<longrightarrow>
        (\<exists>b. responses (trace (snd (do_POST env body w))) =
            WfileWrite b # EndHeaders # SendHeader ''Content-type'' ''text/html''
              # SendResponse 200 # responses (trace w)
          \<and> status_codes (trace (snd (do_POST env body w))) = 200 # status_codes (trace w)
          \<and> (b = ''Successfully saved a file.''
             \<or> (\<exists>details. b = ''Failed to render a file.'' @ details))))"
proof (intro conjI impI)
  show "responses (trace (respond s w)) =
      WfileWrite (if isSuccess s then ''Successfully saved a file.''
                  else ''Failed to render a file.'' @ failureDetails s)
        # EndHeaders # SendHeader ''Content-type'' ''text/html'' # SendResponse 200
        # responses (trace w)"
    by (rule respond_readings)
next
  assume ok: "fst (do_POST env body w) = Inr ()"
  obtain res w' where run: "do_POST env body w = (res, w')"
    by fastforce
  have "\<exists>b. responses (trace w') =
            WfileWrite b # EndHeaders # SendHeader ''Content-type'' ''text/html''
              # SendResponse 200 # responses (trace w)
          \<and> status_codes (trace w') = 200 # status_codes (trace w)
          \<and> (b = ''Successfully saved a file.''
             \<or> (\<exists>details. b = ''Failed to render a file.'' @ details))"
    using run
  proof (cases rule: do_POST_cases)
    case no_key
    then show ?thesis using ok run by auto
  next
    case (create sid uid e)
    then show ?thesis using ok run by simp
  next
    case (poll sid uid project w1 e)
    then show ?thesis using ok run by simp
  next
    case (respond sid uid project w1 s2 w2)
    have "responses (trace w2) = responses (trace w)" "status_codes (trace w2) = status_codes (trace w)"
      using create_project_readings(3,4) [OF respond(3)]
        poll_silent [of env project initial_state w1] respond(4)
      by simp_all
    then show ?thesis
      using respond(6) by (cases "isSuccess s2") (simp_all add: respond_readings)
  qed
  then show "\<exists>b. responses (trace (snd (do_POST env body w))) =
            WfileWrite b # EndHeaders # SendHeader ''Content-type'' ''text/html''
              # SendResponse 200 # responses (trace w)
          \<and> status_codes (trace (snd (do_POST env body w))) = 200 # status_codes (trace w)
          \<and> (b = ''Successfully saved a file.''
             \<or> (\<exists>details. b = ''Failed to render a file.'' @ details))"
    using run by simp
qed

text \<open>
  A run that ends in success.
\<close>

theorem response_always_200_witness:
  "fst (do_POST (service scenario_A) request fresh) = Inr ()
   \<and> responses (trace (snd (do_POST (service scenario_A) request fresh))) =
       [WfileWrite ''Successfully saved a file.'', EndHeaders,
        SendHeader ''Content-type'' ''text/html'', SendResponse 200]
   \<and> status_codes (trace (snd (do_POST (service scenario_A) request fresh))) = [200]"
proof -
  have ok: "fst (do_POST (service scenario_A) request fresh) = Inr ()"
    by (simp add: run_simps scenario_A_def)
  have body: "response_bodies (trace (snd (do_POST (service scenario_A) request fresh)))
      = [''Successfully saved a file.'']"
    by (simp add: run_simps scenario_A_def)
  from response_always_200 [of initial_state fresh "service scenario_A" request] ok
  obtain b where b: "responses (trace (snd (do_POST (service scenario_A) request fresh))) =
            WfileWrite b # EndHeaders # SendHeader ''Content-type'' ''text/html''
              # SendResponse 200 # responses (trace fresh)"
      "status_codes (trace (snd (do_POST (service scenario_A) request fresh)))
         = 200 # status_codes (trace fresh)"
    by blast
  have "response_bodies (trace (snd (do_POST (service scenario_A) request fresh))) = [b]"
  proof -
    have "response_bodies (responses tr) = response_bodies tr" for tr
      by (induction tr rule: response_bodies.induct) simp_all
    then have "response_bodies (trace (snd (do_POST (service scenario_A) request fresh)))
        = response_bodies (WfileWrite b # EndHeaders # SendHeader ''Content-type'' ''text/html''
              # SendResponse 200 # responses (trace fresh))"
      using b(1) by metis
    then show ?thesis
      by (simp add: fresh_def)
  qed
  then have "b = ''Successfully saved a file.''"
    using body by simp
  then show ?thesis
    using ok b by (simp add: fresh_def)
qed

end
